theory Spec2Isabelle
  imports Complex_Main "HOL-Library.Multiset"
begin

section \<open>MultiQC bar plots: a model of \<^verbatim>\<open>multiqc/plots/plotly/bar.py\<close>\<close>

text \<open>
  The model follows \<^verbatim>\<open>BarPlot.Dataset.create\<close> and \<^verbatim>\<open>BarPlot.__init__\<close> stage by
  stage. Python exceptions are values of the type \<open>error\<close>; a computation that may raise
  returns \<open>error + 'a\<close>, with \<open>Inl\<close> for the exception.
\<close>

subsection \<open>Python values and exceptions\<close>

datatype error = ValueError | AssertionError | IndexError | KeyError | ColorError

text \<open>
  A number of a category's \<^verbatim>\<open>data\<close> list: a finite number, or the float NaN. Finite
  numbers are exact reals in this model (rounding of floats is not modelled). Every
  comparison with NaN is false, and NaN propagates through arithmetic.
\<close>

datatype pynum = Val real | NaN

fun isnan :: "pynum \<Rightarrow> bool" where
  "isnan NaN = True"
| "isnan (Val v) = False"

fun py_gt :: "pynum \<Rightarrow> pynum \<Rightarrow> bool" where
  "py_gt (Val a) (Val b) = (a > b)"
| "py_gt NaN y = False"
| "py_gt (Val a) NaN = False"

fun py_lt :: "pynum \<Rightarrow> pynum \<Rightarrow> bool" where
  "py_lt (Val a) (Val b) = (a < b)"
| "py_lt NaN y = False"
| "py_lt (Val a) NaN = False"

fun py_add :: "pynum \<Rightarrow> pynum \<Rightarrow> pynum" where
  "py_add (Val a) (Val b) = Val (a + b)"
| "py_add NaN y = NaN"
| "py_add (Val a) NaN = NaN"

text \<open>The real number of a value that is not NaN.\<close>

fun the_val :: "pynum \<Rightarrow> real" where
  "the_val (Val v) = v"
| "the_val NaN = 0"

text \<open>The values of a configuration dictionary.\<close>

datatype pyvalue = PyNone | PyStr string | PyBool bool | PyInt int

definition ebind :: "'e + 'a \<Rightarrow> ('a \<Rightarrow> 'e + 'b) \<Rightarrow> 'e + 'b" where
  "ebind m f = (case m of Inl e \<Rightarrow> Inl e | Inr x \<Rightarrow> f x)"

text \<open>A comprehension whose body may raise: the first exception, in order, wins.\<close>

fun emap :: "('a \<Rightarrow> 'e + 'b) \<Rightarrow> 'a list \<Rightarrow> 'e + 'b list" where
  "emap f [] = Inr []"
| "emap f (x # xs) =
     (case f x of
        Inl e \<Rightarrow> Inl e
      | Inr y \<Rightarrow> (case emap f xs of Inl e \<Rightarrow> Inl e | Inr ys \<Rightarrow> Inr (y # ys)))"

text \<open>\<^verbatim>\<open>xs[i]\<close> for an index \<open>i \<ge> 0\<close>: IndexError out of range.\<close>

definition getitem :: "'a list \<Rightarrow> nat \<Rightarrow> error + 'a" where
  "getitem xs i = (if i < length xs then Inr (xs ! i) else Inl IndexError)"

text \<open>
  The builtins \<^verbatim>\<open>max\<close> and \<^verbatim>\<open>min\<close> of an iterable: ValueError when it is empty;
  otherwise the first item is kept and replaced by a later item exactly when
  \<^verbatim>\<open>item > current\<close> (for \<^verbatim>\<open>min\<close>: \<^verbatim>\<open>item < current\<close>). The comparison is a parameter.
\<close>

fun py_max :: "('a \<Rightarrow> 'a \<Rightarrow> bool) \<Rightarrow> 'a list \<Rightarrow> error + 'a" where
  "py_max gt [] = Inl ValueError"
| "py_max gt (x # xs) = Inr (foldl (\<lambda>m y. if gt y m then y else m) x xs)"

fun py_min :: "('a \<Rightarrow> 'a \<Rightarrow> bool) \<Rightarrow> 'a list \<Rightarrow> error + 'a" where
  "py_min lt [] = Inl ValueError"
| "py_min lt (x # xs) = Inr (foldl (\<lambda>m y. if lt y m then y else m) x xs)"

text \<open>The builtin \<^verbatim>\<open>sum\<close>: starts at 0 and adds the items from left to right.\<close>

definition py_sum :: "pynum list \<Rightarrow> pynum" where
  "py_sum xs = foldl py_add (Val 0) xs"

subsection \<open>Data model\<close>

text \<open>
  A category is a dictionary with the keys \<^verbatim>\<open>name\<close>, \<^verbatim>\<open>color\<close>, \<^verbatim>\<open>data\<close> and, once
  percentages are computed, \<^verbatim>\<open>data_pct\<close>. The keys \<^verbatim>\<open>name\<close> and \<^verbatim>\<open>data_pct\<close> may be missing.
\<close>

record cat =
  name :: "string option"
  color :: string
  data :: "pynum list"
  data_pct :: "pynum list option"

text \<open>
  What the base class gives every dataset: the percentage range of the x axis. The
  allowed range of the x axis is written by the bar plot.
\<close>

record base_dataset =
  pct_range_xaxis_min :: "pynum option"
  pct_range_xaxis_max :: "pynum option"
  minallowed :: "pynum option"
  maxallowed :: "pynum option"

record dataset = base_dataset +
  cats :: "cat list"
  samples :: "string list"

text \<open>\<^verbatim>\<open>barmode\<close> is one of the strings \<^verbatim>\<open>"relative"\<close> (stacked) and \<^verbatim>\<open>"group"\<close>.\<close>

datatype barmode = Relative | Group

record base_plot =
  base_datasets :: "base_dataset list"
  add_pct_tab :: bool
  add_log_tab :: bool

text \<open>The state of a \<^verbatim>\<open>BarPlot\<close> that the constructor sets.\<close>

record BarPlot =
  datasets :: "dataset list"
  height :: int
  layout_barmode :: barmode
  traceorder :: string

subsection \<open>\<^verbatim>\<open>BarPlot.Dataset.create\<close>\<close>

text \<open>
  The loop over the categories. The two helpers that are not part of this file are
  parameters: \<open>wrap\<close> is \<^verbatim>\<open>"<br>".join(split_long_string(...))\<close>, and \<open>recolor\<close> is the
  colour parser followed by the formatting of its RGB triple, which may raise.
\<close>

fun create_cats ::
  "(string \<Rightarrow> string) \<Rightarrow> (string \<Rightarrow> error + string) \<Rightarrow> string list \<Rightarrow> cat list \<Rightarrow> error + cat list"
where
  "create_cats wrap recolor smpls [] = Inr []"
| "create_cats wrap recolor smpls (c # cs) =
     (case name c of
        None \<Rightarrow> Inl ValueError
      | Some nm \<Rightarrow>
          (case recolor (color c) of
             Inl e \<Rightarrow> Inl e
           | Inr col \<Rightarrow>
               if length smpls = length (data c)
               then (case create_cats wrap recolor smpls cs of
                       Inl e \<Rightarrow> Inl e
                     | Inr cs' \<Rightarrow> Inr (c\<lparr>name := Some (wrap nm), color := col\<rparr> # cs'))
               else Inl AssertionError))"

definition Dataset_create ::
  "(string \<Rightarrow> string) \<Rightarrow> (string \<Rightarrow> error + string) \<Rightarrow> base_dataset \<Rightarrow> cat list \<Rightarrow> string list
   \<Rightarrow> error + dataset"
where
  "Dataset_create wrap recolor d cs smpls =
     ebind (create_cats wrap recolor smpls cs) (\<lambda>cs'.
       Inr \<lparr>pct_range_xaxis_min = pct_range_xaxis_min d,
            pct_range_xaxis_max = pct_range_xaxis_max d,
            minallowed = minallowed d,
            maxallowed = maxallowed d,
            cats = cs', samples = smpls\<rparr>)"

subsection \<open>Barmode and height\<close>

definition set_barmode :: "(string \<rightharpoonup> pyvalue) \<Rightarrow> barmode" where
  "set_barmode pconfig =
     (case pconfig ''stacking'' of
        None \<Rightarrow> Relative
      | Some v \<Rightarrow> if v \<in> set [PyStr ''group'', PyStr ''normal'', PyNone] then Group else Relative)"

fun n_bars_to_size :: "int \<Rightarrow> int" where
  "n_bars_to_size n =
     (if n \<ge> 30 then 15
      else if n \<ge> 20 then 20
      else if n \<ge> 10 then 25
      else if n \<ge> 5 then 30
      else 35)"

definition HEIGHT_PER_LEGEND_ITEM :: int where
  "HEIGHT_PER_LEGEND_ITEM = 19"

definition MIN_HEIGHT :: int where
  "MIN_HEIGHT = 300"

definition MAX_HEIGHT :: int where
  "MAX_HEIGHT = 2560"

definition n_bars_of :: "barmode \<Rightarrow> int \<Rightarrow> int \<Rightarrow> int" where
  "n_bars_of bm max_n_samples max_n_cats =
     (let n_bars = max_n_samples
      in if bm = Group then n_bars * max_n_cats else n_bars)"

text \<open>The height before the space for title and footer is added (lines 140 to 148).\<close>

definition inner_height :: "barmode \<Rightarrow> int \<Rightarrow> int \<Rightarrow> int" where
  "inner_height bm max_n_samples max_n_cats =
     (let n_bars = n_bars_of bm max_n_samples max_n_cats;
          height = n_bars * n_bars_to_size n_bars;
          legend_height = HEIGHT_PER_LEGEND_ITEM * max_n_cats;
          height = max height (max height legend_height);
          height = min 660 (max height legend_height)
      in height)"

definition plot_height :: "barmode \<Rightarrow> int \<Rightarrow> int \<Rightarrow> int" where
  "plot_height bm max_n_samples max_n_cats =
     (let height = inner_height bm max_n_samples max_n_cats;
          height = height + 140;
          height = min MAX_HEIGHT height;
          height = max MIN_HEIGHT height
      in height)"

text \<open>
  The height as the specification words it: the larger of base height and legend height,
  plus the margin, clamped to the range from 300 to 2560.
\<close>

definition spec_height :: "barmode \<Rightarrow> int \<Rightarrow> int \<Rightarrow> int" where
  "spec_height bm sample_count max_category_count =
     (let bars = (if bm = Relative then sample_count else sample_count * max_category_count);
          allowance = (if bars \<ge> 30 then 15 else if bars \<ge> 20 then 20
                       else if bars \<ge> 10 then 25 else if bars \<ge> 5 then 30 else 35);
          base_height = bars * allowance;
          legend_height = 19 * max_category_count
      in max 300 (min 2560 (max base_height legend_height + 140)))"

subsection \<open>Allowed range of the x axis (lines 196 to 210)\<close>

definition cat_data :: "cat \<Rightarrow> error + pynum list" where
  "cat_data c = Inr (data c)"

definition cat_data_pct :: "cat \<Rightarrow> error + pynum list" where
  "cat_data_pct c = (case data_pct c of None \<Rightarrow> Inl KeyError | Some xs \<Rightarrow> Inr xs)"

text \<open>\<^verbatim>\<open>cat[key][i]\<close>, for \<open>key\<close> one of \<^verbatim>\<open>"data"\<close> and \<^verbatim>\<open>"data_pct"\<close>.\<close>

definition cell :: "(cat \<Rightarrow> error + pynum list) \<Rightarrow> cat \<Rightarrow> nat \<Rightarrow> error + pynum" where
  "cell key c i = ebind (key c) (\<lambda>xs. getitem xs i)"

text \<open>\<^verbatim>\<open>max(max(cat[key][i] for cat in cats) for i in range(n))\<close>, and the same with \<^verbatim>\<open>min\<close>.\<close>

definition max_of_max :: "(cat \<Rightarrow> error + pynum list) \<Rightarrow> cat list \<Rightarrow> nat \<Rightarrow> error + pynum" where
  "max_of_max key cs n =
     ebind (emap (\<lambda>i. ebind (emap (\<lambda>c. cell key c i) cs) (py_max py_gt)) [0..<n]) (py_max py_gt)"

definition min_of_min :: "(cat \<Rightarrow> error + pynum list) \<Rightarrow> cat list \<Rightarrow> nat \<Rightarrow> error + pynum" where
  "min_of_min key cs n =
     ebind (emap (\<lambda>i. ebind (emap (\<lambda>c. cell key c i) cs) (py_min py_lt)) [0..<n]) (py_min py_lt)"

text \<open>\<^verbatim>\<open>sum(cat[key][i] if cat[key][i] > 0 else 0 for cat in cats)\<close>, and the same with \<^verbatim>\<open>< 0\<close>.\<close>

definition sum_positive :: "(cat \<Rightarrow> error + pynum list) \<Rightarrow> cat list \<Rightarrow> nat \<Rightarrow> error + pynum" where
  "sum_positive key cs i =
     ebind (emap (\<lambda>c. ebind (cell key c i) (\<lambda>v. if py_gt v (Val 0) then cell key c i else Inr (Val 0))) cs)
       (\<lambda>vs. Inr (py_sum vs))"

definition sum_negative :: "(cat \<Rightarrow> error + pynum list) \<Rightarrow> cat list \<Rightarrow> nat \<Rightarrow> error + pynum" where
  "sum_negative key cs i =
     ebind (emap (\<lambda>c. ebind (cell key c i) (\<lambda>v. if py_lt v (Val 0) then cell key c i else Inr (Val 0))) cs)
       (\<lambda>vs. Inr (py_sum vs))"

definition max_of_sum_positive ::
  "(cat \<Rightarrow> error + pynum list) \<Rightarrow> cat list \<Rightarrow> nat \<Rightarrow> error + pynum" where
  "max_of_sum_positive key cs n = ebind (emap (sum_positive key cs) [0..<n]) (py_max py_gt)"

definition min_of_sum_negative ::
  "(cat \<Rightarrow> error + pynum list) \<Rightarrow> cat list \<Rightarrow> nat \<Rightarrow> error + pynum" where
  "min_of_sum_negative key cs n = ebind (emap (sum_negative key cs) [0..<n]) (py_min py_lt)"

definition set_allowed_range :: "barmode \<Rightarrow> dataset \<Rightarrow> error + dataset" where
  "set_allowed_range bm d =
     (let n = length (samples d) in
      ebind (if bm = Group then max_of_max cat_data (cats d) n
             else max_of_sum_positive cat_data (cats d) n) (\<lambda>xmax_cnt.
      ebind (if bm = Group then min_of_min cat_data (cats d) n
             else min_of_sum_negative cat_data (cats d) n) (\<lambda>xmin_cnt.
        Inr (d\<lparr>minallowed := Some xmin_cnt, maxallowed := Some xmax_cnt\<rparr>))))"

subsection \<open>Expanding data with zeroes (lines 248 to 252)\<close>

definition expand_cat :: "nat \<Rightarrow> cat \<Rightarrow> cat" where
  "expand_cat n c =
     (if length (data c) < n
      then c\<lparr>data := data c @ replicate (n - length (data c)) (Val 0)\<rparr>
      else c)"

definition expand_dataset :: "dataset \<Rightarrow> dataset" where
  "expand_dataset d = d\<lparr>cats := map (expand_cat (length (samples d))) (cats d)\<rparr>"

subsection \<open>Percentages (lines 254 to 284)\<close>

text \<open>
  The inner loop over \<^verbatim>\<open>enumerate(cat["data"])\<close>: a NaN is skipped before \<^verbatim>\<open>sums\<close> is
  indexed. The totals are sums of absolute values of numbers that are not NaN, so they are
  reals.
\<close>

fun add_to_sums :: "(nat \<times> pynum) list \<Rightarrow> real list \<Rightarrow> error + real list" where
  "add_to_sums [] sums' = Inr sums'"
| "add_to_sums ((sample_idx, NaN) # rest) sums' = add_to_sums rest sums'"
| "add_to_sums ((sample_idx, Val v) # rest) sums' =
     (if sample_idx < length sums'
      then add_to_sums rest (sums'[sample_idx := sums' ! sample_idx + \<bar>v\<bar>])
      else Inl IndexError)"

fun count_totals :: "cat list \<Rightarrow> real list \<Rightarrow> error + real list" where
  "count_totals [] sums' = Inr sums'"
| "count_totals (c # cs) sums' =
     ebind (add_to_sums (enumerate 0 (data c)) sums') (count_totals cs)"

definition sample_sums :: "cat list \<Rightarrow> error + real list" where
  "sample_sums cs =
     (case cs of
        [] \<Rightarrow> Inl IndexError
      | c0 # _ \<Rightarrow> count_totals cs (map (\<lambda>_. 0) (data c0)))"

text \<open>
  \<^verbatim>\<open>float(val + 0.0) / float(sum_for_sample) * 100.0\<close>, for a total that is not zero: the
  formula over exact reals. The rounding and the overflow of the floating-point division
  and multiplication are not modelled, so the model says nothing about the last bits of a
  percentage.
\<close>

fun py_percent :: "pynum \<Rightarrow> real \<Rightarrow> pynum" where
  "py_percent (Val v) sum_for_sample = Val (v / sum_for_sample * 100)"
| "py_percent NaN sum_for_sample = NaN"

definition pct_values :: "real list \<Rightarrow> pynum list \<Rightarrow> error + pynum list" where
  "pct_values sums' vals =
     emap (\<lambda>(sample_idx, val).
             ebind (getitem sums' sample_idx) (\<lambda>sum_for_sample.
               Inr (if sum_for_sample = 0 then Val 0 else py_percent val sum_for_sample)))
          (enumerate 0 vals)"

definition cat_pct :: "real list \<Rightarrow> cat \<Rightarrow> error + cat" where
  "cat_pct sums' c = ebind (pct_values sums' (data c)) (\<lambda>vals. Inr (c\<lparr>data_pct := Some vals\<rparr>))"

text \<open>The totals and then the percentages of every category (lines 257 to 273).\<close>

definition cats_pct :: "cat list \<Rightarrow> error + cat list" where
  "cats_pct cs = ebind (sample_sums cs) (\<lambda>sums'. emap (cat_pct sums') cs)"

definition dataset_pct :: "barmode \<Rightarrow> dataset \<Rightarrow> error + dataset" where
  "dataset_pct bm d =
     ebind (cats_pct (cats d)) (\<lambda>cs.
     ebind (if bm = Group then min_of_min cat_data_pct cs (length (samples d))
            else min_of_sum_negative cat_data_pct cs (length (samples d))) (\<lambda>m.
       Inr (d\<lparr>cats := cs, pct_range_xaxis_min := Some m\<rparr>)))"

subsection \<open>Sorting for the log switch (lines 286 to 291)\<close>

text \<open>The key of the sort: \<^verbatim>\<open>lambda x: sum(x["data"])\<close>.\<close>

definition sort_key_of :: "cat \<Rightarrow> pynum" where
  "sort_key_of x = py_sum (data x)"

text \<open>
  The builtin \<^verbatim>\<open>list.sort(key=...)\<close> is not part of this file: it is the parameter
  \<open>list_sort\<close> of the model, which takes the key and the list. \<open>list_sort_result\<close>
  says what is relied on about its result \<open>ys\<close> for the list \<open>xs\<close>. The sort compares
  keys with \<^verbatim>\<open><\<close> only and moves items without adding or dropping one. It first looks
  for the ascending run that the list starts with: a list in which no key is less than the
  key before it is one run and is left as it is. When no key is NaN, \<^verbatim>\<open><\<close> orders the
  keys totally and the result is the stable sort by key. For other lists with a NaN key
  nothing more is fixed.
\<close>

fun no_descent :: "pynum list \<Rightarrow> bool" where
  "no_descent (a # b # ks) = (\<not> py_lt b a \<and> no_descent (b # ks))"
| "no_descent ks = True"

definition list_sort_result :: "('a \<Rightarrow> pynum) \<Rightarrow> 'a list \<Rightarrow> 'a list \<Rightarrow> bool" where
  "list_sort_result key xs ys =
     (mset ys = mset xs
      \<and> (if no_descent (map key xs) then ys = xs else True)
      \<and> (if list_all (\<lambda>x. \<not> isnan (key x)) xs
          then ys = sort_key (\<lambda>x. the_val (key x)) xs else True))"

definition log_stage :: "((cat \<Rightarrow> pynum) \<Rightarrow> cat list \<Rightarrow> cat list) \<Rightarrow> BarPlot \<Rightarrow> BarPlot" where
  "log_stage list_sort p =
     p\<lparr>datasets := map (\<lambda>d. d\<lparr>cats := list_sort sort_key_of (cats d)\<rparr>) (datasets p),
       traceorder := (if datasets p = [] then traceorder p else ''reversed'')\<rparr>"

subsection \<open>\<^verbatim>\<open>BarPlot.__init__\<close> and \<^verbatim>\<open>plot\<close>\<close>

text \<open>
  The constructor, stage by stage. \<open>base\<close> is what the constructor of the base class
  leaves: one base dataset per tab and the two flags for the percentage and log tabs.
  The plot has one height, computed from \<open>max_n_samples\<close> and from the largest number of
  categories of a dataset.
\<close>

definition BarPlot_init ::
  "(string \<Rightarrow> string) \<Rightarrow> (string \<Rightarrow> error + string)
   \<Rightarrow> ((cat \<Rightarrow> pynum) \<Rightarrow> cat list \<Rightarrow> cat list) \<Rightarrow> base_plot \<Rightarrow> (string \<rightharpoonup> pyvalue)
   \<Rightarrow> cat list list \<Rightarrow> string list list \<Rightarrow> int \<Rightarrow> error + BarPlot"
where
  "BarPlot_init wrap recolor list_sort base pconfig cats_lists samples_lists max_n_samples =
     (if length cats_lists \<noteq> length samples_lists then Inl ValueError
      else
        ebind (emap (\<lambda>(d, cs, smpls). Dataset_create wrap recolor d cs smpls)
                 (zip (base_datasets base) (zip cats_lists samples_lists))) (\<lambda>dss.
        let bm = set_barmode pconfig in
        ebind (py_max (\<lambda>a b. a > b) (map (\<lambda>d. int (length (cats d))) dss)) (\<lambda>max_n_cats.
        let h = plot_height bm max_n_samples max_n_cats in
        ebind (emap (set_allowed_range bm) dss) (\<lambda>dss.
        let dss = map expand_dataset dss in
        ebind (if add_pct_tab base then emap (dataset_pct bm) dss else Inr dss) (\<lambda>dss.
        let p = \<lparr>datasets = dss, height = h, layout_barmode = bm,
                 traceorder = (if bm \<noteq> Group then ''normal'' else ''reversed'')\<rparr>
        in Inr (if add_log_tab base then log_stage list_sort p else p))))))"

text \<open>
  The function \<^verbatim>\<open>plot\<close> (lines 18 to 43) builds the plot with \<open>max_n_samples\<close> the largest
  number of samples of a dataset. The model returns the plot; the HTML that the report
  makes of it is not modelled.
\<close>

definition plot ::
  "(string \<Rightarrow> string) \<Rightarrow> (string \<Rightarrow> error + string)
   \<Rightarrow> ((cat \<Rightarrow> pynum) \<Rightarrow> cat list \<Rightarrow> cat list) \<Rightarrow> base_plot \<Rightarrow> (string \<rightharpoonup> pyvalue)
   \<Rightarrow> cat list list \<Rightarrow> string list list \<Rightarrow> error + BarPlot"
where
  "plot wrap recolor list_sort base pconfig cats_lists samples_lists =
     ebind (py_max (\<lambda>a b. a > b) (map (\<lambda>smpls. int (length smpls)) samples_lists))
       (\<lambda>max_n_samples.
          BarPlot_init wrap recolor list_sort base pconfig cats_lists samples_lists max_n_samples)"

subsection \<open>Notions used to state the properties\<close>

text \<open>What a value adds to a sum of only-positive (only-negative) values, and to a total.\<close>

fun positive_part :: "pynum \<Rightarrow> real" where
  "positive_part (Val v) = (if v > 0 then v else 0)"
| "positive_part NaN = 0"

fun negative_part :: "pynum \<Rightarrow> real" where
  "negative_part (Val v) = (if v < 0 then v else 0)"
| "negative_part NaN = 0"

fun abs_part :: "pynum \<Rightarrow> real" where
  "abs_part (Val v) = \<bar>v\<bar>"
| "abs_part NaN = 0"

text \<open>Every category has one value per sample, as \<open>Dataset_create\<close> asserts.\<close>

definition full_length :: "nat \<Rightarrow> cat list \<Rightarrow> bool" where
  "full_length n cs = list_all (\<lambda>c. length (data c) = n) cs"

definition nan_free :: "cat list \<Rightarrow> bool" where
  "nan_free cs = list_all (\<lambda>c. list_all (\<lambda>v. \<not> isnan v) (data c)) cs"

text \<open>
  The values of all categories; per sample, the sum of the only-positive and of the
  only-negative values of the categories.
\<close>

definition category_values :: "cat list \<Rightarrow> real list" where
  "category_values cs = concat (map (\<lambda>c. map the_val (data c)) cs)"

definition positive_sums :: "nat \<Rightarrow> cat list \<Rightarrow> real list" where
  "positive_sums n cs = map (\<lambda>i. \<Sum>c\<leftarrow>cs. positive_part (data c ! i)) [0..<n]"

definition negative_sums :: "nat \<Rightarrow> cat list \<Rightarrow> real list" where
  "negative_sums n cs = map (\<lambda>i. \<Sum>c\<leftarrow>cs. negative_part (data c ! i)) [0..<n]"

text \<open>
  The total of a sample: the sum of the absolute values of the values of all categories
  at the sample that are not NaN. The percentage of a category at a sample: 0 when the
  total is zero, else the value divided by the total, times 100.
\<close>

definition sample_total :: "cat list \<Rightarrow> nat \<Rightarrow> real" where
  "sample_total cs i = (\<Sum>c\<leftarrow>cs. abs_part (data c ! i))"

definition percent_of :: "cat list \<Rightarrow> cat \<Rightarrow> nat \<Rightarrow> pynum" where
  "percent_of cs c i =
     (if sample_total cs i = 0 then Val 0
      else case data c ! i of Val v \<Rightarrow> Val (v / sample_total cs i * 100) | NaN \<Rightarrow> NaN)"

text \<open>
  The categories with their percentages; the percentages of all categories; per sample,
  the sum of the only-negative percentages of the categories.
\<close>

definition with_pct :: "nat \<Rightarrow> cat list \<Rightarrow> cat list" where
  "with_pct n cs = map (\<lambda>c. c\<lparr>data_pct := Some (map (percent_of cs c) [0..<n])\<rparr>) cs"

definition percent_values :: "nat \<Rightarrow> cat list \<Rightarrow> real list" where
  "percent_values n cs = concat (map (\<lambda>c. map (\<lambda>i. the_val (percent_of cs c i)) [0..<n]) cs)"

definition negative_percent_sums :: "nat \<Rightarrow> cat list \<Rightarrow> real list" where
  "negative_percent_sums n cs = map (\<lambda>i. \<Sum>c\<leftarrow>cs. negative_part (percent_of cs c i)) [0..<n]"

text \<open>The total value sum of a category.\<close>

definition cat_total :: "cat \<Rightarrow> real" where
  "cat_total c = sum_list (map the_val (data c))"

text \<open>
  A key (\<^verbatim>\<open>"data"\<close> or \<^verbatim>\<open>"data_pct"\<close>) is present in every category, with \<open>n\<close> values
  that \<open>sel\<close> selects.
\<close>

definition key_ok ::
  "(cat \<Rightarrow> error + pynum list) \<Rightarrow> (cat \<Rightarrow> pynum list) \<Rightarrow> nat \<Rightarrow> cat list \<Rightarrow> bool" where
  "key_ok key sel n cs = (\<forall>c\<in>set cs. key c = Inr (sel c) \<and> length (sel c) = n)"

text \<open>A plot of two datasets, with 2 and with 6 samples, and what the constructor gives.\<close>

definition two_tabs_cats :: "cat list list" where
  "two_tabs_cats =
     [[\<lparr>name = Some ''X'', color = ''#ff0000'', data = [Val 1, Val 2], data_pct = None\<rparr>],
      [\<lparr>name = Some ''X'', color = ''#ff0000'',
         data = [Val 1, Val 2, Val 3, Val 4, Val 5, Val 6], data_pct = None\<rparr>]]"

definition two_tabs_samples :: "string list list" where
  "two_tabs_samples = [[''A'', ''B''], [''A'', ''B'', ''C'', ''D'', ''E'', ''F'']]"

definition two_tabs_base :: base_plot where
  "two_tabs_base =
     \<lparr>base_datasets =
        [\<lparr>pct_range_xaxis_min = None, pct_range_xaxis_max = None,
           minallowed = None, maxallowed = None\<rparr>,
         \<lparr>pct_range_xaxis_min = None, pct_range_xaxis_max = None,
           minallowed = None, maxallowed = None\<rparr>],
      add_pct_tab = False, add_log_tab = False\<rparr>"

definition two_tabs_plot :: BarPlot where
  "two_tabs_plot =
     \<lparr>datasets =
        [\<lparr>pct_range_xaxis_min = None, pct_range_xaxis_max = None,
           minallowed = Some (Val 0), maxallowed = Some (Val 2),
           cats = [\<lparr>name = Some ''X'', color = ''#ff0000'', data = [Val 1, Val 2],
                     data_pct = None\<rparr>],
           samples = [''A'', ''B'']\<rparr>,
         \<lparr>pct_range_xaxis_min = None, pct_range_xaxis_max = None,
           minallowed = Some (Val 0), maxallowed = Some (Val 6),
           cats = [\<lparr>name = Some ''X'', color = ''#ff0000'',
                     data = [Val 1, Val 2, Val 3, Val 4, Val 5, Val 6], data_pct = None\<rparr>],
           samples = [''A'', ''B'', ''C'', ''D'', ''E'', ''F'']\<rparr>],
      height = 320, layout_barmode = Relative, traceorder = ''normal''\<rparr>"

text \<open>
  Two datasets with NaN, samples A and B: the categories X = [1, NaN] and Y = [NaN, 2],
  and the categories X = [1, NaN] and Y = [NaN, -2].
\<close>

definition nan_dataset :: dataset where
  "nan_dataset =
     \<lparr>pct_range_xaxis_min = None, pct_range_xaxis_max = None,
      minallowed = None, maxallowed = None,
      cats = [\<lparr>name = Some ''X'', color = ''#ff0000'', data = [Val 1, NaN], data_pct = None\<rparr>,
              \<lparr>name = Some ''Y'', color = ''#0000ff'', data = [NaN, Val 2], data_pct = None\<rparr>],
      samples = [''A'', ''B'']\<rparr>"

definition nan_negative_dataset :: dataset where
  "nan_negative_dataset =
     \<lparr>pct_range_xaxis_min = None, pct_range_xaxis_max = None,
      minallowed = None, maxallowed = None,
      cats = [\<lparr>name = Some ''X'', color = ''#ff0000'', data = [Val 1, NaN], data_pct = None\<rparr>,
              \<lparr>name = Some ''Y'', color = ''#0000ff'', data = [NaN, Val (-2)], data_pct = None\<rparr>],
      samples = [''A'', ''B'']\<rparr>"

text \<open>Three categories with the total value sums 2, NaN and 1.\<close>

definition nan_key_cats :: "cat list" where
  "nan_key_cats =
     [\<lparr>name = Some ''P'', color = ''#ff0000'', data = [Val 2], data_pct = None\<rparr>,
      \<lparr>name = Some ''R'', color = ''#00ff00'', data = [NaN], data_pct = None\<rparr>,
      \<lparr>name = Some ''Q'', color = ''#0000ff'', data = [Val 1], data_pct = None\<rparr>]"

text \<open>The scenario of the specification: samples A, B, C; categories X and Y.\<close>

definition example_cats :: "cat list" where
  "example_cats =
     [\<lparr>name = Some ''X'', color = ''#ff0000'', data = [Val 1, Val 2, Val 3], data_pct = None\<rparr>,
      \<lparr>name = Some ''Y'', color = ''#0000ff'', data = [Val 3, Val 2, Val 1], data_pct = None\<rparr>]"

definition example_dataset :: dataset where
  "example_dataset =
     \<lparr>pct_range_xaxis_min = None, pct_range_xaxis_max = None,
      minallowed = None, maxallowed = None,
      cats = example_cats, samples = [''A'', ''B'', ''C'']\<rparr>"

section \<open>Properties of barmode and height\<close>

text \<open>
  Claim C3, as amended. The plot is built in group mode exactly when the configuration has
  the key \<^verbatim>\<open>stacking\<close> with one of the values None, \<^verbatim>\<open>"normal"\<close> and \<^verbatim>\<open>"group"\<close>; a
  configuration without the key, or with any other value, gives the stacked mode.
\<close>

theorem barmode_select:
  "set_barmode pconfig =
     (if pconfig ''stacking'' = Some PyNone \<or> pconfig ''stacking'' = Some (PyStr ''normal'')
         \<or> pconfig ''stacking'' = Some (PyStr ''group'')
      then Group else Relative)"
  by (auto simp add: set_barmode_def split: option.splits)

theorem barmode_select_witness:
  "set_barmode [''stacking'' \<mapsto> PyStr ''normal''] = Group
   \<and> set_barmode [''stacking'' \<mapsto> PyStr ''group''] = Group
   \<and> set_barmode [''stacking'' \<mapsto> PyNone] = Group
   \<and> set_barmode [''stacking'' \<mapsto> PyStr ''stacked''] = Relative
   \<and> set_barmode [''cpswitch'' \<mapsto> PyBool True] = Relative"
  using barmode_select [of "[''stacking'' \<mapsto> PyStr ''normal'']"]
    barmode_select [of "[''stacking'' \<mapsto> PyStr ''group'']"]
    barmode_select [of "[''stacking'' \<mapsto> PyNone]"]
    barmode_select [of "[''stacking'' \<mapsto> PyStr ''stacked'']"]
    barmode_select [of "[''cpswitch'' \<mapsto> PyBool True]"]
  by simp

text \<open>
  Claim C3 as it is written fails: with the stacking option absent from the configuration,
  the plot is built in stacked mode, not in group mode.
\<close>

theorem barmode_absent_counterexample:
  "set_barmode Map.empty \<noteq> Group"
  by (simp add: set_barmode_def)

lemma py_max_int:
  fixes xs :: "int list"
  assumes "xs \<noteq> []"
  shows "py_max (\<lambda>a b. a > b) xs = Inr (Max (set xs))"
proof (cases xs)
  case Nil
  with assms show ?thesis by simp
next
  case (Cons a as)
  have "foldl (\<lambda>m y. if y > m then y else m) x ys = fold max ys x" for x :: int and ys
    by (induction ys arbitrary: x) (simp_all add: max_def)
  moreover have "Max (set (a # as)) = fold max as a" by (rule Max.set_eq_fold)
  ultimately show ?thesis using Cons by simp
qed

lemma create_cats_length:
  "create_cats wrap recolor smpls cs = Inr cs' \<Longrightarrow> length cs' = length cs"
  by (induction cs arbitrary: cs') (auto split: option.splits sum.splits if_splits)

lemma Dataset_create_cats_length:
  "Dataset_create wrap recolor d cs smpls = Inr ds \<Longrightarrow> length (cats ds) = length cs"
  by (auto simp add: Dataset_create_def ebind_def split: sum.splits dest: create_cats_length)

lemma emap_Inr_map:
  assumes "emap f xs = Inr ys" and "\<And>x y. x \<in> set xs \<Longrightarrow> f x = Inr y \<Longrightarrow> g y = h x"
  shows "map g ys = map h xs"
  using assms by (induction xs arbitrary: ys) (auto split: sum.splits)

lemma created_cats_lengths:
  assumes "emap (\<lambda>(d, cs, smpls). Dataset_create wrap recolor d cs smpls)
      (zip bs (zip cats_lists samples_lists)) = Inr dss"
    and "length bs = length cats_lists" "length cats_lists = length samples_lists"
  shows "map (\<lambda>d. int (length (cats d))) dss = map (\<lambda>cs. int (length cs)) cats_lists"
proof -
  have "map (\<lambda>d. int (length (cats d))) dss
      = map (\<lambda>(d, cs, smpls). int (length cs)) (zip bs (zip cats_lists samples_lists))"
    using assms(1) by (rule emap_Inr_map) (auto dest: Dataset_create_cats_length)
  also have "\<dots> = map (\<lambda>cs. int (length cs)) (map (fst \<circ> snd) (zip bs (zip cats_lists samples_lists)))"
    by (simp add: case_prod_unfold comp_def)
  also have "map (fst \<circ> snd) (zip bs (zip cats_lists samples_lists)) = cats_lists"
    using assms(2,3) by (simp add: map_fst_zip map_snd_zip flip: map_map)
  finally show ?thesis .
qed

lemma BarPlot_init_height:
  assumes "BarPlot_init wrap recolor list_sort base pconfig cats_lists samples_lists max_n_samples
      = Inr p"
    and "length (base_datasets base) = length cats_lists"
  shows "height p = plot_height (set_barmode pconfig) max_n_samples
      (Max (set (map (\<lambda>cs. int (length cs)) cats_lists)))"
proof -
  from assms(1) have len: "length cats_lists = length samples_lists"
    by (auto simp add: BarPlot_init_def split: if_splits)
  from assms(1) len obtain dss where
    dss: "emap (\<lambda>(d, cs, smpls). Dataset_create wrap recolor d cs smpls)
      (zip (base_datasets base) (zip cats_lists samples_lists)) = Inr dss"
    by (auto simp add: BarPlot_init_def ebind_def split: sum.splits)
  have m: "map (\<lambda>d. int (length (cats d))) dss = map (\<lambda>cs. int (length cs)) cats_lists"
    using dss assms(2) len by (rule created_cats_lengths)
  from assms(1) len dss m obtain max_n_cats where
    mx: "py_max (\<lambda>a b. a > b) (map (\<lambda>cs. int (length cs)) cats_lists) = Inr max_n_cats"
    by (auto simp add: BarPlot_init_def ebind_def Let_def split: sum.splits)
  then have ne: "map (\<lambda>cs. int (length cs)) cats_lists \<noteq> []"
    by (cases cats_lists) auto
  from py_max_int [OF ne] mx
  have "max_n_cats = Max (set (map (\<lambda>cs. int (length cs)) cats_lists))" by simp
  with assms(1) len dss m mx show ?thesis
    by (auto simp add: BarPlot_init_def ebind_def Let_def log_stage_def
        split: sum.splits if_splits)
qed

text \<open>
  Claim C2, as amended. A plot has one height, the same for all of its datasets. It is
  the larger of base height and legend height, capped at 660, plus 140, clamped to the
  range from 300 to 2560. The base height is the effective bar count times the per-bar
  allowance (15 from 30 bars, 20 from 20, 25 from 10, 30 from 5, else 35); the effective
  bar count is \<open>max_n_samples\<close> in stacked mode and \<open>max_n_samples\<close> times the maximum
  category count in group mode; the legend height is 19 times the maximum category
  count. The maximum category count is the largest number of categories of a dataset of
  the plot, and \<^verbatim>\<open>plot\<close> passes the largest number of samples of a dataset as
  \<open>max_n_samples\<close>.
\<close>

theorem plot_height_formula:
  "plot_height bm max_n_samples max_n_cats =
     (let bars = (if bm = Relative then max_n_samples else max_n_samples * max_n_cats);
          allowance = (if bars \<ge> 30 then 15 else if bars \<ge> 20 then 20
                       else if bars \<ge> 10 then 25 else if bars \<ge> 5 then 30 else 35);
          base_height = bars * allowance;
          legend_height = 19 * max_n_cats
      in max 300 (min 2560 (min 660 (max base_height legend_height) + 140)))
   \<and> (BarPlot_init wrap recolor list_sort base pconfig cats_lists samples_lists max_n_samples
          = Inr p
        \<and> length (base_datasets base) = length cats_lists \<longrightarrow>
      height p = plot_height (set_barmode pconfig) max_n_samples
        (Max (set (map (\<lambda>cs. int (length cs)) cats_lists))))
   \<and> (plot wrap recolor list_sort base pconfig cats_lists samples_lists = Inr p'
        \<and> length (base_datasets base) = length cats_lists \<longrightarrow>
      height p' = plot_height (set_barmode pconfig)
        (Max (set (map (\<lambda>smpls. int (length smpls)) samples_lists)))
        (Max (set (map (\<lambda>cs. int (length cs)) cats_lists))))"
proof -
  have bars: "n_bars_of bm max_n_samples max_n_cats =
      (if bm = Relative then max_n_samples else max_n_samples * max_n_cats)"
    by (cases bm) (simp_all add: n_bars_of_def)
  have allowance: "(if b \<ge> 30 then 15 else if b \<ge> 20 then 20
      else if b \<ge> 10 then 25 else if b \<ge> 5 then 30 else 35) = n_bars_to_size b" for b
    by simp
  have formula: "plot_height bm max_n_samples max_n_cats =
     (let bars = (if bm = Relative then max_n_samples else max_n_samples * max_n_cats);
          allowance = (if bars \<ge> 30 then 15 else if bars \<ge> 20 then 20
                       else if bars \<ge> 10 then 25 else if bars \<ge> 5 then 30 else 35);
          base_height = bars * allowance;
          legend_height = 19 * max_n_cats
      in max 300 (min 2560 (min 660 (max base_height legend_height) + 140)))"
    unfolding Let_def allowance bars [symmetric]
    by (simp add: plot_height_def inner_height_def HEIGHT_PER_LEGEND_ITEM_def
          MIN_HEIGHT_def MAX_HEIGHT_def Let_def del: n_bars_to_size.simps)
  have init: "height p = plot_height (set_barmode pconfig) max_n_samples
        (Max (set (map (\<lambda>cs. int (length cs)) cats_lists)))"
    if "BarPlot_init wrap recolor list_sort base pconfig cats_lists samples_lists max_n_samples
          = Inr p \<and> length (base_datasets base) = length cats_lists"
    using that BarPlot_init_height [of wrap recolor list_sort base pconfig cats_lists
        samples_lists max_n_samples p]
    by blast
  have top: "height p' = plot_height (set_barmode pconfig)
        (Max (set (map (\<lambda>smpls. int (length smpls)) samples_lists)))
        (Max (set (map (\<lambda>cs. int (length cs)) cats_lists)))"
    if a: "plot wrap recolor list_sort base pconfig cats_lists samples_lists = Inr p'
        \<and> length (base_datasets base) = length cats_lists"
  proof -
    from a obtain m where
      m: "py_max (\<lambda>a b. a > b) (map (\<lambda>smpls. int (length smpls)) samples_lists) = Inr m"
      and b: "BarPlot_init wrap recolor list_sort base pconfig cats_lists samples_lists m = Inr p'"
      by (auto simp add: plot_def ebind_def split: sum.splits)
    from m have ne: "map (\<lambda>smpls. int (length smpls)) samples_lists \<noteq> []"
      by (cases samples_lists) auto
    from py_max_int [OF ne] m
    have eq: "m = Max (set (map (\<lambda>smpls. int (length smpls)) samples_lists))" by simp
    from a have "length (base_datasets base) = length cats_lists" by blast
    with b have "height p' = plot_height (set_barmode pconfig) m
        (Max (set (map (\<lambda>cs. int (length cs)) cats_lists)))"
      by (rule BarPlot_init_height)
    then show ?thesis unfolding eq .
  qed
  from formula init top show ?thesis by blast
qed

theorem plot_height_formula_witness:
  "plot (\<lambda>s. s) Inr (\<lambda>key cs. cs) two_tabs_base Map.empty two_tabs_cats two_tabs_samples
     = Inr two_tabs_plot
   \<and> length (base_datasets two_tabs_base) = length two_tabs_cats
   \<and> height two_tabs_plot = 320
   \<and> map length two_tabs_samples = [2, 6]
   \<and> plot_height Relative 6 1 = 320 \<and> plot_height Relative 2 1 = 300
   \<and> plot_height Group 3 4 = 440"
proof -
  have d1: "set_allowed_range Relative
      \<lparr>pct_range_xaxis_min = None, pct_range_xaxis_max = None, minallowed = None,
         maxallowed = None,
         cats = [\<lparr>name = Some ''X'', color = ''#ff0000'', data = [Val 1, Val 2],
                   data_pct = None\<rparr>],
         samples = [''A'', ''B'']\<rparr>
      = Inr (datasets two_tabs_plot ! 0)"
    by (simp add: set_allowed_range_def max_of_sum_positive_def min_of_sum_negative_def
          sum_positive_def sum_negative_def cell_def cat_data_def getitem_def py_sum_def
          ebind_def Let_def upt_rec two_tabs_plot_def)
  have d2: "set_allowed_range Relative
      \<lparr>pct_range_xaxis_min = None, pct_range_xaxis_max = None, minallowed = None,
         maxallowed = None,
         cats = [\<lparr>name = Some ''X'', color = ''#ff0000'',
                   data = [Val 1, Val 2, Val 3, Val 4, Val 5, Val 6], data_pct = None\<rparr>],
         samples = [''A'', ''B'', ''C'', ''D'', ''E'', ''F'']\<rparr>
      = Inr (datasets two_tabs_plot ! 1)"
    by (simp add: set_allowed_range_def max_of_sum_positive_def min_of_sum_negative_def
          sum_positive_def sum_negative_def cell_def cat_data_def getitem_def py_sum_def
          ebind_def Let_def upt_rec two_tabs_plot_def)
  have h: "plot_height Relative 6 1 = 320"
    by (simp add: plot_height_def inner_height_def n_bars_of_def HEIGHT_PER_LEGEND_ITEM_def
          MIN_HEIGHT_def MAX_HEIGHT_def Let_def)
  have p: "plot (\<lambda>s. s) Inr (\<lambda>key cs. cs) two_tabs_base Map.empty two_tabs_cats two_tabs_samples
     = Inr two_tabs_plot"
    by (simp add: plot_def BarPlot_init_def two_tabs_base_def two_tabs_cats_def
          two_tabs_samples_def Dataset_create_def set_barmode_def d1 d2 h ebind_def Let_def)
      (simp add: two_tabs_plot_def expand_dataset_def expand_cat_def)
  have l: "length (base_datasets two_tabs_base) = length two_tabs_cats"
    by (simp add: two_tabs_base_def two_tabs_cats_def)
  have s: "map length two_tabs_samples = [2, 6]"
    by (simp add: two_tabs_samples_def)
  have "height two_tabs_plot = plot_height (set_barmode Map.empty)
        (Max (set (map (\<lambda>smpls. int (length smpls)) two_tabs_samples)))
        (Max (set (map (\<lambda>cs. int (length cs)) two_tabs_cats)))"
    using p l
      plot_height_formula [where p' = two_tabs_plot and wrap = "\<lambda>s. s" and recolor = Inr
        and list_sort = "\<lambda>key cs. cs" and base = two_tabs_base and pconfig = Map.empty
        and cats_lists = two_tabs_cats and samples_lists = two_tabs_samples]
    by blast
  then have "height two_tabs_plot = 320"
    by (simp add: two_tabs_plot_def)
  moreover have "plot_height Relative 2 1 = 300" "plot_height Group 3 4 = 440"
    by (simp_all add: plot_height_def inner_height_def n_bars_of_def HEIGHT_PER_LEGEND_ITEM_def
          MIN_HEIGHT_def MAX_HEIGHT_def Let_def)
  ultimately show ?thesis
    using p l s h by simp
qed

text \<open>
  Claim C2 as it is written fails: for 100 samples and one category in stacked mode the
  base height is 1500, so the stated formula gives 1640, and the code gives 800.
\<close>

theorem plot_height_counterexample:
  "plot_height Relative 100 1 = 800 \<and> spec_height Relative 100 1 = 1640"
  by (simp add: plot_height_def inner_height_def n_bars_of_def HEIGHT_PER_LEGEND_ITEM_def
        MIN_HEIGHT_def MAX_HEIGHT_def spec_height_def Let_def)

text \<open>
  Claim C4, as amended. For every sample count, category count and barmode the height lies
  in the range from 300 to 2560. For a fixed category count (not negative) and barmode, the
  height does not decrease from a sample count to a larger one when both have the same
  per-bar allowance.
\<close>

theorem plot_height_range_and_mono:
  "300 \<le> plot_height bm n c \<and> plot_height bm n c \<le> 2560
   \<and> (m \<le> n \<and> 0 \<le> c
        \<and> n_bars_to_size (n_bars_of bm m c) = n_bars_to_size (n_bars_of bm n c)
      \<longrightarrow> plot_height bm m c \<le> plot_height bm n c)"
proof -
  have range: "300 \<le> plot_height bm n c \<and> plot_height bm n c \<le> 2560"
    by (simp add: plot_height_def inner_height_def HEIGHT_PER_LEGEND_ITEM_def
          MIN_HEIGHT_def MAX_HEIGHT_def Let_def del: n_bars_to_size.simps)
  have mono: "plot_height bm m c \<le> plot_height bm n c"
    if "m \<le> n" "0 \<le> c"
      and same: "n_bars_to_size (n_bars_of bm m c) = n_bars_to_size (n_bars_of bm n c)"
  proof -
    have le: "n_bars_of bm m c \<le> n_bars_of bm n c"
      using that(1,2) by (simp add: n_bars_of_def mult_right_mono)
    have pos: "0 \<le> n_bars_to_size (n_bars_of bm n c)"
      by simp
    have "n_bars_of bm m c * n_bars_to_size (n_bars_of bm m c)
          \<le> n_bars_of bm n c * n_bars_to_size (n_bars_of bm n c)"
      unfolding same using le pos by (rule mult_right_mono)
    then show ?thesis
      by (simp add: plot_height_def inner_height_def HEIGHT_PER_LEGEND_ITEM_def
            MIN_HEIGHT_def MAX_HEIGHT_def Let_def del: n_bars_to_size.simps)
  qed
  from range mono show ?thesis by blast
qed

theorem plot_height_range_and_mono_witness:
  "(12::int) \<le> 17 \<and> (0::int) \<le> 2
   \<and> n_bars_to_size (n_bars_of Relative 12 2) = n_bars_to_size (n_bars_of Relative 17 2)
   \<and> plot_height Relative 12 2 \<le> plot_height Relative 17 2
   \<and> 300 \<le> plot_height Relative 17 2 \<and> plot_height Relative 17 2 \<le> 2560"
  using plot_height_range_and_mono [of Relative 17 2 12]
  by (simp add: n_bars_of_def)

text \<open>
  Claim C4 as it is written fails: in stacked mode with one category, 9 samples give
  the height 410 and 10 samples give 390.
\<close>

theorem plot_height_mono_counterexample:
  "plot_height Relative 9 1 = 410 \<and> plot_height Relative 10 1 = 390
   \<and> \<not> plot_height Relative 9 1 \<le> plot_height Relative 10 1"
  by (simp add: plot_height_def inner_height_def n_bars_of_def HEIGHT_PER_LEGEND_ITEM_def
        MIN_HEIGHT_def MAX_HEIGHT_def Let_def)

text \<open>
  Claim C10. The height never exceeds 800: the height before the margin is at most 660,
  the final height is that plus 140, raised to 300 where it is less, and the upper limit
  of 2560 never binds.
\<close>

theorem plot_height_le_800:
  "inner_height bm n c \<le> 660
   \<and> min MAX_HEIGHT (inner_height bm n c + 140) = inner_height bm n c + 140
   \<and> plot_height bm n c = max 300 (inner_height bm n c + 140)
   \<and> plot_height bm n c \<le> 800"
  by (simp add: plot_height_def inner_height_def HEIGHT_PER_LEGEND_ITEM_def
        MIN_HEIGHT_def MAX_HEIGHT_def Let_def del: n_bars_to_size.simps)

section \<open>Properties of the allowed range\<close>

lemma ebind_Inr [simp]: "ebind (Inr x) f = f x"
  by (simp add: ebind_def)

lemma ebind_Inl [simp]: "ebind (Inl e) f = Inl e"
  by (simp add: ebind_def)

lemma emap_Inr: "(\<And>x. x \<in> set xs \<Longrightarrow> f x = Inr (g x)) \<Longrightarrow> emap f xs = Inr (map g xs)"
  by (induction xs) simp_all

lemma foldl_py_gt_Val:
  "foldl (\<lambda>m y. if py_gt y m then y else m) (Val x) (map Val xs) = Val (fold max xs x)"
  by (induction xs arbitrary: x) (simp_all add: max_def)

lemma foldl_py_lt_Val:
  "foldl (\<lambda>m y. if py_lt y m then y else m) (Val x) (map Val xs) = Val (fold min xs x)"
  by (induction xs arbitrary: x) (simp_all add: min_def)

lemma py_max_Val:
  assumes "xs \<noteq> []"
  shows " py_max py_gt (map Val xs) = Inr (Val (Max (set xs)))"
proof (cases xs)
  case Nil
  with assms show ?thesis by simp
next
  case (Cons a as)
  have "Max (set (a # as)) = fold max as a" by (rule Max.set_eq_fold)
  with Cons show ?thesis by (simp add: foldl_py_gt_Val)
qed

lemma py_min_Val:
  assumes "xs \<noteq> []"
  shows " py_min py_lt (map Val xs) = Inr (Val (Min (set xs)))"
proof (cases xs)
  case Nil
  with assms show ?thesis by simp
next
  case (Cons a as)
  have "Min (set (a # as)) = fold min as a" by (rule Min.set_eq_fold)
  with Cons show ?thesis by (simp add: foldl_py_lt_Val)
qed

lemma foldl_py_add_Val: "foldl py_add (Val a) (map Val xs) = Val (a + sum_list xs)"
  by (induction xs arbitrary: a) (simp_all add: add.assoc)

lemma py_sum_Val: "py_sum (map Val xs) = Val (sum_list xs)"
  by (simp add: py_sum_def foldl_py_add_Val)

lemma Val_the_val: "\<not> isnan v \<Longrightarrow> Val (the_val v) = v"
  by (cases v) simp_all

lemma cell_data: "i < length (data c) \<Longrightarrow> cell cat_data c i = Inr (data c ! i)"
  by (simp add: cell_def cat_data_def getitem_def)

lemma cell_data_pct:
  "data_pct c = Some ps \<Longrightarrow> i < length ps \<Longrightarrow> cell cat_data_pct c i = Inr (ps ! i)"
  by (simp add: cell_def cat_data_pct_def getitem_def)

lemma cell_key_ok: "key_ok key sel n cs \<Longrightarrow> c \<in> set cs \<Longrightarrow> i < n \<Longrightarrow> cell key c i = Inr (sel c ! i)"
  by (simp add: key_ok_def cell_def getitem_def)

lemma sum_positive_eq:
  assumes "key_ok key sel n cs" "i < n"
  shows "sum_positive key cs i = Inr (Val (\<Sum>c\<leftarrow>cs. positive_part (sel c ! i)))"
proof -
  have "emap (\<lambda>c. ebind (cell key c i) (\<lambda>v. if py_gt v (Val 0) then cell key c i else Inr (Val 0))) cs
      = Inr (map (\<lambda>c. Val (positive_part (sel c ! i))) cs)"
  proof (rule emap_Inr)
    fix c assume "c \<in> set cs"
    then have "cell key c i = Inr (sel c ! i)" using assms by (simp add: cell_key_ok)
    then show "ebind (cell key c i) (\<lambda>v. if py_gt v (Val 0) then cell key c i else Inr (Val 0))
       = Inr (Val (positive_part (sel c ! i)))"
      by (cases "sel c ! i") simp_all
  qed
  then show ?thesis
    using py_sum_Val [of "map (\<lambda>c. positive_part (sel c ! i)) cs"]
    by (simp add: sum_positive_def comp_def)
qed

lemma sum_negative_eq:
  assumes "key_ok key sel n cs" "i < n"
  shows "sum_negative key cs i = Inr (Val (\<Sum>c\<leftarrow>cs. negative_part (sel c ! i)))"
proof -
  have "emap (\<lambda>c. ebind (cell key c i) (\<lambda>v. if py_lt v (Val 0) then cell key c i else Inr (Val 0))) cs
      = Inr (map (\<lambda>c. Val (negative_part (sel c ! i))) cs)"
  proof (rule emap_Inr)
    fix c assume "c \<in> set cs"
    then have "cell key c i = Inr (sel c ! i)" using assms by (simp add: cell_key_ok)
    then show "ebind (cell key c i) (\<lambda>v. if py_lt v (Val 0) then cell key c i else Inr (Val 0))
       = Inr (Val (negative_part (sel c ! i)))"
      by (cases "sel c ! i") simp_all
  qed
  then show ?thesis
    using py_sum_Val [of "map (\<lambda>c. negative_part (sel c ! i)) cs"]
    by (simp add: sum_negative_def comp_def)
qed

lemma max_of_sum_positive_eq:
  assumes "key_ok key sel n cs" "0 < n"
  shows "max_of_sum_positive key cs n
     = Inr (Val (Max (set (map (\<lambda>i. \<Sum>c\<leftarrow>cs. positive_part (sel c ! i)) [0..<n]))))"
proof -
  have "emap (sum_positive key cs) [0..<n] = Inr (map (\<lambda>i. Val (\<Sum>c\<leftarrow>cs. positive_part (sel c ! i))) [0..<n])"
    using assms(1) by (intro emap_Inr) (simp add: sum_positive_eq)
  then show ?thesis
    using py_max_Val [of "map (\<lambda>i. \<Sum>c\<leftarrow>cs. positive_part (sel c ! i)) [0..<n]"] assms(2)
    by (simp add: max_of_sum_positive_def comp_def)
qed

lemma min_of_sum_negative_eq:
  assumes "key_ok key sel n cs" "0 < n"
  shows "min_of_sum_negative key cs n
     = Inr (Val (Min (set (map (\<lambda>i. \<Sum>c\<leftarrow>cs. negative_part (sel c ! i)) [0..<n]))))"
proof -
  have "emap (sum_negative key cs) [0..<n] = Inr (map (\<lambda>i. Val (\<Sum>c\<leftarrow>cs. negative_part (sel c ! i))) [0..<n])"
    using assms(1) by (intro emap_Inr) (simp add: sum_negative_eq)
  then show ?thesis
    using py_min_Val [of "map (\<lambda>i. \<Sum>c\<leftarrow>cs. negative_part (sel c ! i)) [0..<n]"] assms(2)
    by (simp add: min_of_sum_negative_def comp_def)
qed


lemma max_of_max_eq:
  assumes ok: "key_ok key sel n cs" and "0 < n" "cs \<noteq> []"
    and nn: "\<forall>c\<in>set cs. \<forall>v\<in>set (sel c). \<not> isnan v"
  shows "max_of_max key cs n
     = Inr (Val (Max (set (concat (map (\<lambda>c. map the_val (sel c)) cs)))))"
proof -
  let ?v = "\<lambda>c i. the_val (sel c ! i)"
  let ?row = "\<lambda>i. Max (set (map (\<lambda>c. ?v c i) cs))"
  have inner: "ebind (emap (\<lambda>c. cell key c i) cs) (py_max py_gt) = Inr (Val (?row i))"
    if "i < n" for i
  proof -
    have "emap (\<lambda>c. cell key c i) cs = Inr (map (\<lambda>c. Val (?v c i)) cs)"
    proof (rule emap_Inr)
      fix c assume c: "c \<in> set cs"
      then have "sel c ! i \<in> set (sel c)" using ok that by (simp add: key_ok_def)
      then have "\<not> isnan (sel c ! i)" using nn c by blast
      then show "cell key c i = Inr (Val (?v c i))"
        using cell_key_ok [OF ok c that] by (simp add: Val_the_val)
    qed
    then show ?thesis
      using py_max_Val [of "map (\<lambda>c. ?v c i) cs"] \<open>cs \<noteq> []\<close> by (simp add: comp_def)
  qed
  have "emap (\<lambda>i. ebind (emap (\<lambda>c. cell key c i) cs) (py_max py_gt)) [0..<n]
      = Inr (map (\<lambda>i. Val (?row i)) [0..<n])"
    by (rule emap_Inr) (simp add: inner)
  then have res: "max_of_max key cs n = Inr (Val (Max (set (map ?row [0..<n]))))"
    using py_max_Val [of "map ?row [0..<n]"] \<open>0 < n\<close>
    by (simp add: max_of_max_def comp_def)
  let ?S = "set (concat (map (\<lambda>c. map the_val (sel c)) cs))"
  have S: "?S = {?v c i | c i. c \<in> set cs \<and> i < n}"
  proof -
    have "the_val ` set (sel c) = {?v c i | i. i < n}" if "c \<in> set cs" for c
    proof -
      have "length (sel c) = n" using ok that by (simp add: key_ok_def)
      then show ?thesis by (auto simp add: set_conv_nth)
    qed
    then show ?thesis by auto
  qed
  have "Max (set (map ?row [0..<n])) = Max ?S"
  proof (rule Max_eqI [symmetric])
    show "finite ?S" by simp
  next
    fix y assume "y \<in> ?S"
    then obtain c i where y: "y = ?v c i" and c: "c \<in> set cs" and i: "i < n"
      unfolding S by blast
    have "y \<le> ?row i" unfolding y using c by (intro Max_ge) auto
    also have "\<dots> \<le> Max (set (map ?row [0..<n]))" using i by (intro Max_ge) auto
    finally show "y \<le> Max (set (map ?row [0..<n]))" .
  next
    have "Max (set (map ?row [0..<n])) \<in> set (map ?row [0..<n])"
      using \<open>0 < n\<close> by (intro Max_in) auto
    then obtain i where i: "i < n" and m: "Max (set (map ?row [0..<n])) = ?row i" by auto
    have "?row i \<in> set (map (\<lambda>c. ?v c i) cs)"
      using \<open>cs \<noteq> []\<close> by (intro Max_in) auto
    then obtain c where "c \<in> set cs" "?row i = ?v c i" by auto
    with i m show "Max (set (map ?row [0..<n])) \<in> ?S" unfolding S by auto
  qed
  with res show ?thesis by simp
qed

lemma min_of_min_eq:
  assumes ok: "key_ok key sel n cs" and "0 < n" "cs \<noteq> []"
    and nn: "\<forall>c\<in>set cs. \<forall>v\<in>set (sel c). \<not> isnan v"
  shows "min_of_min key cs n
     = Inr (Val (Min (set (concat (map (\<lambda>c. map the_val (sel c)) cs)))))"
proof -
  let ?v = "\<lambda>c i. the_val (sel c ! i)"
  let ?row = "\<lambda>i. Min (set (map (\<lambda>c. ?v c i) cs))"
  have inner: "ebind (emap (\<lambda>c. cell key c i) cs) (py_min py_lt) = Inr (Val (?row i))"
    if "i < n" for i
  proof -
    have "emap (\<lambda>c. cell key c i) cs = Inr (map (\<lambda>c. Val (?v c i)) cs)"
    proof (rule emap_Inr)
      fix c assume c: "c \<in> set cs"
      then have "sel c ! i \<in> set (sel c)" using ok that by (simp add: key_ok_def)
      then have "\<not> isnan (sel c ! i)" using nn c by blast
      then show "cell key c i = Inr (Val (?v c i))"
        using cell_key_ok [OF ok c that] by (simp add: Val_the_val)
    qed
    then show ?thesis
      using py_min_Val [of "map (\<lambda>c. ?v c i) cs"] \<open>cs \<noteq> []\<close> by (simp add: comp_def)
  qed
  have "emap (\<lambda>i. ebind (emap (\<lambda>c. cell key c i) cs) (py_min py_lt)) [0..<n]
      = Inr (map (\<lambda>i. Val (?row i)) [0..<n])"
    by (rule emap_Inr) (simp add: inner)
  then have res: "min_of_min key cs n = Inr (Val (Min (set (map ?row [0..<n]))))"
    using py_min_Val [of "map ?row [0..<n]"] \<open>0 < n\<close>
    by (simp add: min_of_min_def comp_def)
  let ?S = "set (concat (map (\<lambda>c. map the_val (sel c)) cs))"
  have S: "?S = {?v c i | c i. c \<in> set cs \<and> i < n}"
  proof -
    have "the_val ` set (sel c) = {?v c i | i. i < n}" if "c \<in> set cs" for c
    proof -
      have "length (sel c) = n" using ok that by (simp add: key_ok_def)
      then show ?thesis by (auto simp add: set_conv_nth)
    qed
    then show ?thesis by auto
  qed
  have "Min (set (map ?row [0..<n])) = Min ?S"
  proof (rule Min_eqI [symmetric])
    show "finite ?S" by simp
  next
    fix y assume "y \<in> ?S"
    then obtain c i where y: "y = ?v c i" and c: "c \<in> set cs" and i: "i < n"
      unfolding S by blast
    have "?row i \<le> y" unfolding y using c by (intro Min_le) auto
    moreover have "Min (set (map ?row [0..<n])) \<le> ?row i" using i by (intro Min_le) auto
    ultimately show "Min (set (map ?row [0..<n])) \<le> y" by simp
  next
    have "Min (set (map ?row [0..<n])) \<in> set (map ?row [0..<n])"
      using \<open>0 < n\<close> by (intro Min_in) auto
    then obtain i where i: "i < n" and m: "Min (set (map ?row [0..<n])) = ?row i" by auto
    have "?row i \<in> set (map (\<lambda>c. ?v c i) cs)"
      using \<open>cs \<noteq> []\<close> by (intro Min_in) auto
    then obtain c where "c \<in> set cs" "?row i = ?v c i" by auto
    with i m show "Min (set (map ?row [0..<n])) \<in> ?S" unfolding S by auto
  qed
  with res show ?thesis by simp
qed

lemma full_length_key_ok: "full_length n cs \<Longrightarrow> key_ok cat_data data n cs"
  by (simp add: full_length_def key_ok_def list_all_iff cat_data_def)

lemma nan_free_iff: "nan_free cs = (\<forall>c\<in>set cs. \<forall>v\<in>set (data c). \<not> isnan v)"
  by (simp add: nan_free_def list_all_iff)

text \<open>
  The allowed range on a dataset with at least one sample and one value per sample in
  every category (as the constructor asserts). In stacked mode the allowed maximum is the
  maximum over the samples of the sum of the only-positive values of the categories at
  that sample, and the minimum is the minimum of the sum of the only-negative values; a
  NaN is neither. In group mode, with a category and no NaN, the allowed maximum
  (minimum) is the maximum (minimum) of the values of all categories over all samples.
  For the samples A, B, C with the categories X = [1,2,3] and Y = [3,2,1] in stacked mode,
  the maximum is 4 and the minimum is 0.
\<close>

theorem allowed_range:
  "(samples d \<noteq> [] \<and> cats d \<noteq> [] \<and> full_length (length (samples d)) (cats d)
      \<and> nan_free (cats d) \<longrightarrow>
    set_allowed_range Group d =
      Inr (d\<lparr>minallowed := Some (Val (Min (set (category_values (cats d))))),
             maxallowed := Some (Val (Max (set (category_values (cats d)))))\<rparr>))
   \<and> (samples d \<noteq> [] \<and> full_length (length (samples d)) (cats d) \<longrightarrow>
    set_allowed_range Relative d =
      Inr (d\<lparr>minallowed := Some (Val (Min (set (negative_sums (length (samples d)) (cats d))))),
             maxallowed := Some (Val (Max (set (positive_sums (length (samples d)) (cats d)))))\<rparr>))
   \<and> set_allowed_range Relative example_dataset =
      Inr (example_dataset\<lparr>minallowed := Some (Val 0), maxallowed := Some (Val 4)\<rparr>)"
proof -
  have grp: "set_allowed_range Group d =
      Inr (d\<lparr>minallowed := Some (Val (Min (set (category_values (cats d))))),
             maxallowed := Some (Val (Max (set (category_values (cats d)))))\<rparr>)"
    if a: "samples d \<noteq> [] \<and> cats d \<noteq> [] \<and> full_length (length (samples d)) (cats d)
      \<and> nan_free (cats d)"
  proof -
    from a have ok: "key_ok cat_data data (length (samples d)) (cats d)"
      by (simp add: full_length_key_ok)
    from a have nn: "\<forall>c\<in>set (cats d). \<forall>v\<in>set (data c). \<not> isnan v"
      by (simp add: nan_free_iff)
    from a have n: "0 < length (samples d)" and cs: "cats d \<noteq> []" by simp_all
    show ?thesis
      by (simp add: set_allowed_range_def Let_def category_values_def
            max_of_max_eq [OF ok n cs nn] min_of_min_eq [OF ok n cs nn])
  qed
  have rel: "set_allowed_range Relative d =
      Inr (d\<lparr>minallowed := Some (Val (Min (set (negative_sums (length (samples d)) (cats d))))),
             maxallowed := Some (Val (Max (set (positive_sums (length (samples d)) (cats d)))))\<rparr>)"
    if a: "samples d \<noteq> [] \<and> full_length (length (samples d)) (cats d)" for d
  proof -
    from a have ok: "key_ok cat_data data (length (samples d)) (cats d)"
      by (simp add: full_length_key_ok)
    from a have n: "0 < length (samples d)" by simp
    show ?thesis
      by (simp add: set_allowed_range_def Let_def positive_sums_def negative_sums_def
            max_of_sum_positive_eq [OF ok n] min_of_sum_negative_eq [OF ok n])
  qed
  have neg: "negative_sums 3 example_cats = [0, 0, 0]"
    by (simp add: negative_sums_def example_cats_def upt_rec)
  have pos: "positive_sums 3 example_cats = [4, 4, 4]"
    by (simp add: positive_sums_def example_cats_def upt_rec)
  have len: "length (samples example_dataset) = 3" "cats example_dataset = example_cats"
    by (simp_all add: example_dataset_def)
  have "full_length 3 example_cats"
    by (simp add: full_length_def example_cats_def)
  then have ex: "set_allowed_range Relative example_dataset =
      Inr (example_dataset\<lparr>minallowed := Some (Val 0), maxallowed := Some (Val 4)\<rparr>)"
    using rel [of example_dataset] by (simp add: len neg pos) (simp add: example_dataset_def)
  from grp rel ex show ?thesis by blast
qed

theorem allowed_range_witness:
  "samples example_dataset \<noteq> [] \<and> cats example_dataset \<noteq> []
   \<and> full_length (length (samples example_dataset)) (cats example_dataset)
   \<and> nan_free (cats example_dataset)
   \<and> set_allowed_range Group example_dataset =
       Inr (example_dataset\<lparr>minallowed := Some (Val 1), maxallowed := Some (Val 3)\<rparr>)
   \<and> full_length 3
        [\<lparr>name = Some ''P'', color = ''red'', data = [Val 2, Val (-1), Val 0], data_pct = None\<rparr>,
         \<lparr>name = Some ''Q'', color = ''blue'', data = [Val (-3), Val 4, NaN], data_pct = None\<rparr>]
   \<and> set_allowed_range Relative
        (example_dataset\<lparr>cats :=
          [\<lparr>name = Some ''P'', color = ''red'', data = [Val 2, Val (-1), Val 0], data_pct = None\<rparr>,
           \<lparr>name = Some ''Q'', color = ''blue'', data = [Val (-3), Val 4, NaN], data_pct = None\<rparr>]\<rparr>)
       = Inr (example_dataset\<lparr>cats :=
          [\<lparr>name = Some ''P'', color = ''red'', data = [Val 2, Val (-1), Val 0], data_pct = None\<rparr>,
           \<lparr>name = Some ''Q'', color = ''blue'', data = [Val (-3), Val 4, NaN], data_pct = None\<rparr>],
          minallowed := Some (Val (-3)), maxallowed := Some (Val 4)\<rparr>)"
  using allowed_range [of example_dataset]
    allowed_range [of "example_dataset\<lparr>cats :=
          [\<lparr>name = Some ''P'', color = ''red'', data = [Val 2, Val (-1), Val 0], data_pct = None\<rparr>,
           \<lparr>name = Some ''Q'', color = ''blue'', data = [Val (-3), Val 4, NaN], data_pct = None\<rparr>]\<rparr>"]
  by (simp add: example_dataset_def example_cats_def full_length_def nan_free_def
        category_values_def positive_sums_def negative_sums_def upt_rec)

text \<open>
  Claim C5 on data with NaN in group mode. For the samples A, B with the categories
  X = [1, NaN] and Y = [NaN, 2], lines 199 and 200 give the allowed maximum 1 and the
  allowed minimum 1, although the category Y has the value 2 at the sample B: a NaN that
  comes first in \<^verbatim>\<open>max\<close> or \<^verbatim>\<open>min\<close> is kept, since every comparison with it is false.
\<close>

theorem allowed_range_nan_group:
  "set_allowed_range Group nan_dataset =
     Inr (nan_dataset\<lparr>minallowed := Some (Val 1), maxallowed := Some (Val 1)\<rparr>)
   \<and> data (cats nan_dataset ! 1) ! 1 = Val 2"
  by (simp add: set_allowed_range_def max_of_max_def min_of_min_def cell_def cat_data_def
        getitem_def ebind_def Let_def upt_rec nan_dataset_def)

section \<open>Properties of the percentages\<close>

lemma add_to_sums_eq:
  "k + length xs = length ss \<Longrightarrow>
   add_to_sums (enumerate k xs) ss
     = Inr (take k ss @ map2 (\<lambda>s v. s + abs_part v) (drop k ss) xs)"
proof (induction xs arbitrary: k ss)
  case Nil
  then show ?case by simp
next
  case (Cons x xs)
  then have k: "k < length ss" by simp
  have d: "drop k ss = ss ! k # drop (Suc k) ss"
    using k by (simp add: Cons_nth_drop_Suc)
  show ?case
  proof (cases x)
    case NaN
    have "add_to_sums (enumerate (Suc k) xs) ss
        = Inr (take (Suc k) ss @ map2 (\<lambda>s v. s + abs_part v) (drop (Suc k) ss) xs)"
      using Cons.prems by (intro Cons.IH) simp
    then show ?thesis
      using NaN k by (simp add: d take_Suc_conv_app_nth)
  next
    case (Val v)
    let ?ss = "ss[k := ss ! k + \<bar>v\<bar>]"
    have "add_to_sums (enumerate (Suc k) xs) ?ss
        = Inr (take (Suc k) ?ss @ map2 (\<lambda>s v. s + abs_part v) (drop (Suc k) ?ss) xs)"
      using Cons.prems by (intro Cons.IH) simp
    then show ?thesis
      using Val k by (simp add: d take_Suc_conv_app_nth)
  qed
qed

lemma count_totals_eq:
  "full_length (length ss) cs \<Longrightarrow>
   count_totals cs ss = Inr (map (\<lambda>i. ss ! i + (\<Sum>c\<leftarrow>cs. abs_part (data c ! i))) [0..<length ss])"
proof (induction cs arbitrary: ss)
  case Nil
  then show ?case by (simp add: map_nth)
next
  case (Cons c cs)
  then have len: "length (data c) = length ss" and rest: "full_length (length ss) cs"
    by (simp_all add: full_length_def)
  let ?ss = "map2 (\<lambda>s v. s + abs_part v) ss (data c)"
  have step: "add_to_sums (enumerate 0 (data c)) ss = Inr ?ss"
    using add_to_sums_eq [of 0 "data c" ss] len by simp
  have l: "length ?ss = length ss" using len by simp
  have "count_totals cs ?ss
      = Inr (map (\<lambda>i. ?ss ! i + (\<Sum>c\<leftarrow>cs. abs_part (data c ! i))) [0..<length ?ss])"
    using rest l by (intro Cons.IH) simp
  then show ?case
    using step l len by (simp add: add.assoc)
qed

lemma sample_sums_eq:
  assumes "cs \<noteq> []" "full_length n cs"
  shows "sample_sums cs = Inr (map (sample_total cs) [0..<n])"
proof -
  obtain c0 cs' where cs: "cs = c0 # cs'" using assms(1) by (cases cs) auto
  then have n: "length (data c0) = n" using assms(2) by (simp add: full_length_def)
  have "count_totals cs (map (\<lambda>_. 0) (data c0))
      = Inr (map (\<lambda>i. map (\<lambda>_. 0) (data c0) ! i + (\<Sum>c\<leftarrow>cs. abs_part (data c ! i)))
               [0..<length (map (\<lambda>_. 0::real) (data c0))])"
    using assms(2) n by (intro count_totals_eq) simp
  then show ?thesis
    using n by (simp add: sample_sums_def cs sample_total_def)
qed

lemma pct_values_eq:
  assumes "length vals \<le> length ss"
  shows "pct_values ss vals
    = Inr (map (\<lambda>i. if ss ! i = 0 then Val 0 else py_percent (vals ! i) (ss ! i)) [0..<length vals])"
proof -
  let ?g = "\<lambda>(i, v). if ss ! i = 0 then Val 0 else py_percent v (ss ! i)"
  have "pct_values ss vals = Inr (map ?g (enumerate 0 vals))"
    unfolding pct_values_def
  proof (rule emap_Inr)
    fix x assume "x \<in> set (enumerate 0 vals)"
    then have "fst x < length ss" using assms by (auto simp add: in_set_enumerate_eq)
    then show "(case x of (sample_idx, val) \<Rightarrow>
            ebind (getitem ss sample_idx) (\<lambda>sum_for_sample.
              Inr (if sum_for_sample = 0 then Val 0 else py_percent val sum_for_sample)))
          = Inr (?g x)"
      by (cases x) (simp add: getitem_def)
  qed
  also have "map ?g (enumerate 0 vals)
      = map (\<lambda>i. if ss ! i = 0 then Val 0 else py_percent (vals ! i) (ss ! i)) [0..<length vals]"
    by (rule nth_equalityI) (simp_all add: nth_enumerate_eq)
  finally show ?thesis .
qed

lemma py_percent_case:
  "py_percent x t = (case x of Val v \<Rightarrow> Val (v / t * 100) | NaN \<Rightarrow> NaN)"
  by (cases x) simp_all

lemma cats_pct_eq:
  assumes "cs \<noteq> []" "full_length n cs"
  shows "cats_pct cs = Inr (map (\<lambda>c. c\<lparr>data_pct := Some (map (percent_of cs c) [0..<n])\<rparr>) cs)"
proof -
  have "emap (cat_pct (map (sample_total cs) [0..<n])) cs
      = Inr (map (\<lambda>c. c\<lparr>data_pct := Some (map (percent_of cs c) [0..<n])\<rparr>) cs)"
  proof (rule emap_Inr)
    fix c assume "c \<in> set cs"
    then have n: "length (data c) = n" using assms(2) by (simp add: full_length_def list_all_iff)
    have eq: "map (\<lambda>i. if map (sample_total cs) [0..<n] ! i = 0 then Val 0
                 else py_percent (data c ! i) (map (sample_total cs) [0..<n] ! i)) [0..<n]
        = map (percent_of cs c) [0..<n]"
      by (rule map_cong) (auto simp add: percent_of_def py_percent_case)
    show "cat_pct (map (sample_total cs) [0..<n]) c
        = Inr (c\<lparr>data_pct := Some (map (percent_of cs c) [0..<n])\<rparr>)"
      using pct_values_eq [of "data c" "map (sample_total cs) [0..<n]"] n
      by (simp add: cat_pct_def eq)
  qed
  then show ?thesis
    by (simp add: cats_pct_def sample_sums_eq [OF assms])
qed





section \<open>Properties of the percentage range\<close>

lemma with_pct_key_ok: "key_ok cat_data_pct (\<lambda>c. the (data_pct c)) n (with_pct n cs)"
  by (simp add: key_ok_def with_pct_def cat_data_pct_def)

lemma percent_of_not_nan:
  "\<not> isnan (data c ! i) \<Longrightarrow> \<not> isnan (percent_of cs c i)"
  by (cases "data c ! i") (simp_all add: percent_of_def)

lemma min_of_min_with_pct:
  assumes "cs \<noteq> []" "0 < n" "full_length n cs" "nan_free cs"
  shows "min_of_min cat_data_pct (with_pct n cs) n = Inr (Val (Min (set (percent_values n cs))))"
proof -
  have ne: "with_pct n cs \<noteq> []" using assms(1) by (simp add: with_pct_def)
  have nn: "\<forall>c\<in>set (with_pct n cs). \<forall>v\<in>set (the (data_pct c)). \<not> isnan v"
  proof (intro ballI)
    fix c' v assume c': "c' \<in> set (with_pct n cs)" and v: "v \<in> set (the (data_pct c'))"
    then obtain c where c: "c \<in> set cs" and "the (data_pct c') = map (percent_of cs c) [0..<n]"
      by (auto simp add: with_pct_def)
    with v obtain i where i: "i < n" and vi: "v = percent_of cs c i" by auto
    have "length (data c) = n" using c assms(3) by (simp add: full_length_def list_all_iff)
    then have "data c ! i \<in> set (data c)" using i by simp
    then have "\<not> isnan (data c ! i)"
      using c assms(4) by (simp add: nan_free_def list_all_iff)
    then show "\<not> isnan v" unfolding vi by (rule percent_of_not_nan)
  qed
  have "concat (map (\<lambda>c. map the_val (the (data_pct c))) (with_pct n cs)) = percent_values n cs"
    by (simp add: with_pct_def percent_values_def comp_def)
  then show ?thesis
    using min_of_min_eq [OF with_pct_key_ok assms(2) ne nn] by simp
qed

lemma min_of_sum_negative_with_pct:
  assumes "0 < n"
  shows "min_of_sum_negative cat_data_pct (with_pct n cs) n
     = Inr (Val (Min (set (negative_percent_sums n cs))))"
proof -
  have "map (\<lambda>i. \<Sum>c\<leftarrow>with_pct n cs. negative_part (the (data_pct c) ! i)) [0..<n]
      = negative_percent_sums n cs"
    unfolding negative_percent_sums_def
    by (rule map_cong) (simp_all add: with_pct_def comp_def)
  then show ?thesis
    using min_of_sum_negative_eq [OF with_pct_key_ok assms, of cs] by simp
qed

text \<open>
  The percentage stage writes only the minimum of the percentage range; the maximum of
  the percentage range and the allowed range are left as they were. In stacked mode the
  minimum is the minimum over the samples of the sum of the only-negative percentages at
  that sample. In group mode, on data without NaN, it is the minimum of the percentages of
  all categories over all samples.
\<close>

theorem percent_range:
  "(cats d \<noteq> [] \<and> samples d \<noteq> [] \<and> full_length (length (samples d)) (cats d)
      \<and> nan_free (cats d) \<longrightarrow>
    dataset_pct Group d =
      Inr (d\<lparr>cats := with_pct (length (samples d)) (cats d),
             pct_range_xaxis_min :=
               Some (Val (Min (set (percent_values (length (samples d)) (cats d)))))\<rparr>))
   \<and> (cats d \<noteq> [] \<and> samples d \<noteq> [] \<and> full_length (length (samples d)) (cats d) \<longrightarrow>
    dataset_pct Relative d =
      Inr (d\<lparr>cats := with_pct (length (samples d)) (cats d),
             pct_range_xaxis_min :=
               Some (Val (Min (set (negative_percent_sums (length (samples d)) (cats d)))))\<rparr>))
   \<and> (dataset_pct bm d = Inr d' \<longrightarrow>
        pct_range_xaxis_max d' = pct_range_xaxis_max d
        \<and> minallowed d' = minallowed d \<and> maxallowed d' = maxallowed d)"
proof -
  have grp: "dataset_pct Group d =
      Inr (d\<lparr>cats := with_pct (length (samples d)) (cats d),
             pct_range_xaxis_min :=
               Some (Val (Min (set (percent_values (length (samples d)) (cats d)))))\<rparr>)"
    if a: "cats d \<noteq> [] \<and> samples d \<noteq> [] \<and> full_length (length (samples d)) (cats d)
      \<and> nan_free (cats d)"
  proof -
    from a have "cats_pct (cats d) = Inr (with_pct (length (samples d)) (cats d))"
      by (simp add: cats_pct_eq with_pct_def)
    moreover from a have "min_of_min cat_data_pct (with_pct (length (samples d)) (cats d))
        (length (samples d))
      = Inr (Val (Min (set (percent_values (length (samples d)) (cats d)))))"
      by (intro min_of_min_with_pct) simp_all
    ultimately show ?thesis by (simp add: dataset_pct_def)
  qed
  have rel: "dataset_pct Relative d =
      Inr (d\<lparr>cats := with_pct (length (samples d)) (cats d),
             pct_range_xaxis_min :=
               Some (Val (Min (set (negative_percent_sums (length (samples d)) (cats d)))))\<rparr>)"
    if a: "cats d \<noteq> [] \<and> samples d \<noteq> [] \<and> full_length (length (samples d)) (cats d)"
  proof -
    from a have "cats_pct (cats d) = Inr (with_pct (length (samples d)) (cats d))"
      by (simp add: cats_pct_eq with_pct_def)
    moreover from a have "min_of_sum_negative cat_data_pct (with_pct (length (samples d)) (cats d))
        (length (samples d))
      = Inr (Val (Min (set (negative_percent_sums (length (samples d)) (cats d)))))"
      by (intro min_of_sum_negative_with_pct) simp
    ultimately show ?thesis by (simp add: dataset_pct_def)
  qed
  have frame: "pct_range_xaxis_max d' = pct_range_xaxis_max d
        \<and> minallowed d' = minallowed d \<and> maxallowed d' = maxallowed d"
    if "dataset_pct bm d = Inr d'"
    using that by (auto simp add: dataset_pct_def ebind_def split: sum.splits)
  from grp rel frame show ?thesis by blast
qed

theorem percent_range_witness:
  "cats example_dataset \<noteq> [] \<and> samples example_dataset \<noteq> []
   \<and> full_length (length (samples example_dataset)) (cats example_dataset)
   \<and> nan_free (cats example_dataset)
   \<and> dataset_pct Group example_dataset =
       Inr (example_dataset\<lparr>cats := with_pct 3 example_cats,
              pct_range_xaxis_min := Some (Val 25)\<rparr>)
   \<and> dataset_pct Relative example_dataset =
       Inr (example_dataset\<lparr>cats := with_pct 3 example_cats,
              pct_range_xaxis_min := Some (Val 0)\<rparr>)
   \<and> pct_range_xaxis_max
        (example_dataset\<lparr>cats := with_pct 3 example_cats, pct_range_xaxis_min := Some (Val 0)\<rparr>)
       = pct_range_xaxis_max example_dataset"
proof -
  have pv: "percent_values 3 example_cats = [25, 50, 75, 75, 50, 25]"
    by (simp add: percent_values_def example_cats_def percent_of_def sample_total_def upt_rec)
  have ns: "negative_percent_sums 3 example_cats = [0, 0, 0]"
    by (simp add: negative_percent_sums_def example_cats_def percent_of_def sample_total_def
          upt_rec)
  have d: "cats example_dataset = example_cats" "length (samples example_dataset) = 3"
    by (simp_all add: example_dataset_def)
  have h: "cats example_dataset \<noteq> [] \<and> samples example_dataset \<noteq> []
      \<and> full_length (length (samples example_dataset)) (cats example_dataset)
      \<and> nan_free (cats example_dataset)"
    by (simp add: example_dataset_def example_cats_def full_length_def nan_free_def)
  show ?thesis
    using h percent_range [of example_dataset Relative
        "example_dataset\<lparr>cats := with_pct 3 example_cats, pct_range_xaxis_min := Some (Val 0)\<rparr>"]
    by (simp add: d pv ns)
qed

text \<open>
  Claim C7 on data with NaN in group mode. For the samples A, B with the categories
  X = [1, NaN] and Y = [NaN, -2] the percentages are X = [100, NaN] and Y = [NaN, -100],
  and lines 277 to 279 give the minimum 100 of the percentage range, although the
  category Y is at -100 at the sample B.
\<close>

theorem percent_range_nan_group:
  "dataset_pct Group nan_negative_dataset =
     Inr (nan_negative_dataset
       \<lparr>cats := [\<lparr>name = Some ''X'', color = ''#ff0000'', data = [Val 1, NaN],
                    data_pct = Some [Val 100, NaN]\<rparr>,
                  \<lparr>name = Some ''Y'', color = ''#0000ff'', data = [NaN, Val (-2)],
                    data_pct = Some [NaN, Val (-100)]\<rparr>],
        pct_range_xaxis_min := Some (Val 100)\<rparr>)"
  by (simp add: dataset_pct_def cats_pct_def sample_sums_def cat_pct_def pct_values_def
        min_of_min_def cell_def cat_data_pct_def getitem_def ebind_def upt_rec
        nan_negative_dataset_def)

section \<open>Properties of the sorting for the log switch\<close>

lemma py_sum_nan_free:
  assumes "list_all (\<lambda>v. \<not> isnan v) xs"
  shows "py_sum xs = Val (sum_list (map the_val xs))"
proof -
  have "map Val (map the_val xs) = xs"
    using assms by (induction xs) (simp_all add: Val_the_val)
  then show ?thesis
    using py_sum_Val [of "map the_val xs"] by simp
qed

lemma sort_key_of_nan_free:
  "list_all (\<lambda>v. \<not> isnan v) (data c) \<Longrightarrow> sort_key_of c = Val (cat_total c)"
  by (simp add: sort_key_of_def cat_total_def py_sum_nan_free)

lemma list_sort_result_nan_free:
  assumes "list_sort_result sort_key_of cs cs'" and "nan_free cs"
  shows "cs' = sort_key cat_total cs"
proof -
  have key: "sort_key_of c = Val (cat_total c)" if "c \<in> set cs" for c
    using that assms(2) by (simp add: nan_free_def list_all_iff sort_key_of_nan_free)
  then have "list_all (\<lambda>x. \<not> isnan (sort_key_of x)) cs"
    by (simp add: list_all_iff)
  with assms(1) have "cs' = sort_key (\<lambda>x. the_val (sort_key_of x)) cs"
    by (simp add: list_sort_result_def)
  also have "\<dots> = sort_key cat_total cs"
  proof -
    have "sort_key f cs = sort_key g cs" if "\<forall>c\<in>set cs. f c = g c" for f g :: "cat \<Rightarrow> real"
      using that 
    proof (induction cs)
      case Nil
      then show ?case by simp
    next
      case (Cons c cs)
      then have "sort_key f cs = sort_key g cs" and "f c = g c" by simp_all
      moreover have "insort_key f c ys = insort_key g c ys"
        if "\<forall>y\<in>set ys. f y = g y" for ys
        using that \<open>f c = g c\<close> by (induction ys) simp_all
      moreover have "set (sort_key g cs) = set cs" by simp
      ultimately show ?case using Cons.prems by (simp add: sort_key_def)
    qed
    then show ?thesis using key by simp
  qed
  finally show ?thesis .
qed

text \<open>
  On data without NaN the sorting does what claim C9 says: the multiset of the categories
  of every dataset stays as it was (this part holds for all data), the categories are in
  ascending order of their total value sum, equal sums in their old order, and the legend
  order is set to reversed. \<open>list_sort\<close> is any function with the results of the builtin
  on the lists of categories of the plot.
\<close>

lemma log_reordering:
  assumes "\<forall>d\<in>set (datasets p). list_sort_result sort_key_of (cats d) (list_sort sort_key_of (cats d))"
  shows "length (datasets (log_stage list_sort p)) = length (datasets p)
   \<and> (\<forall>i < length (datasets p).
        mset (cats (datasets (log_stage list_sort p) ! i)) = mset (cats (datasets p ! i))
        \<and> (nan_free (cats (datasets p ! i)) \<longrightarrow>
             sorted (map cat_total (cats (datasets (log_stage list_sort p) ! i)))
             \<and> cats (datasets (log_stage list_sort p) ! i)
                 = sort_key cat_total (cats (datasets p ! i))))
   \<and> (datasets p \<noteq> [] \<longrightarrow> traceorder (log_stage list_sort p) = ''reversed'')
   \<and> height (log_stage list_sort p) = height p"
proof -
  have "mset (list_sort sort_key_of (cats (datasets p ! i))) = mset (cats (datasets p ! i))
      \<and> (nan_free (cats (datasets p ! i)) \<longrightarrow>
          sorted (map cat_total (list_sort sort_key_of (cats (datasets p ! i))))
          \<and> list_sort sort_key_of (cats (datasets p ! i)) = sort_key cat_total (cats (datasets p ! i)))"
    if "i < length (datasets p)" for i
  proof -
    from that assms have r: "list_sort_result sort_key_of (cats (datasets p ! i))
        (list_sort sort_key_of (cats (datasets p ! i)))"
      by simp
    then have "mset (list_sort sort_key_of (cats (datasets p ! i))) = mset (cats (datasets p ! i))"
      by (simp add: list_sort_result_def)
    moreover have "list_sort sort_key_of (cats (datasets p ! i)) = sort_key cat_total (cats (datasets p ! i))"
      if "nan_free (cats (datasets p ! i))"
      using r that by (rule list_sort_result_nan_free)
    ultimately show ?thesis by simp
  qed
  then show ?thesis by (simp add: log_stage_def)
qed

text \<open>
  Claim C9 on data with NaN. The categories P, R, Q have the values \<open>[2]\<close>, \<open>[NaN]\<close>,
  \<open>[1]\<close>, so the keys of the sort are 2, NaN, 1. No key is less than the key before it,
  so the sort leaves the list as it is, P before Q: the category with the total 2 stays
  before the category with the total 1, and the result is not in ascending order.
\<close>

theorem log_sort_nan_keys:
  "map sort_key_of nan_key_cats = [Val 2, NaN, Val 1]
   \<and> no_descent (map sort_key_of nan_key_cats)
   \<and> list_sort_result sort_key_of nan_key_cats ys = (ys = nan_key_cats)
   \<and> cat_total (nan_key_cats ! 0) = 2 \<and> cat_total (nan_key_cats ! 2) = 1"
proof -
  have k: "map sort_key_of nan_key_cats = [Val 2, NaN, Val 1]"
    by (simp add: nan_key_cats_def sort_key_of_def py_sum_def)
  have "list_sort_result sort_key_of nan_key_cats ys = (ys = nan_key_cats)"
    by (auto simp add: list_sort_result_def k) (simp add: nan_key_cats_def sort_key_of_def py_sum_def)
  then show ?thesis
    by (simp add: k) (simp add: nan_key_cats_def cat_total_def)
qed

theorem log_sort_nan_keys_witness:
  "list_sort_result sort_key_of nan_key_cats nan_key_cats
   \<and> \<not> list_sort_result sort_key_of nan_key_cats
        [\<lparr>name = Some ''Q'', color = ''#0000ff'', data = [Val 1], data_pct = None\<rparr>,
         \<lparr>name = Some ''R'', color = ''#00ff00'', data = [NaN], data_pct = None\<rparr>,
         \<lparr>name = Some ''P'', color = ''#ff0000'', data = [Val 2], data_pct = None\<rparr>]"
proof -
  have "[\<lparr>name = Some ''Q'', color = ''#0000ff'', data = [Val 1], data_pct = None\<rparr>,
         \<lparr>name = Some ''R'', color = ''#00ff00'', data = [NaN], data_pct = None\<rparr>,
         \<lparr>name = Some ''P'', color = ''#ff0000'', data = [Val 2], data_pct = None\<rparr>]
        \<noteq> nan_key_cats"
    by (simp add: nan_key_cats_def)
  then show ?thesis
    using log_sort_nan_keys [of nan_key_cats]
      log_sort_nan_keys [of
        "[\<lparr>name = Some ''Q'', color = ''#0000ff'', data = [Val 1], data_pct = None\<rparr>,
         \<lparr>name = Some ''R'', color = ''#00ff00'', data = [NaN], data_pct = None\<rparr>,
         \<lparr>name = Some ''P'', color = ''#ff0000'', data = [Val 2], data_pct = None\<rparr>]"]
    by simp
qed

section \<open>Properties of the construction and the expansion\<close>

lemma create_cats_ok:
  assumes "list_all (\<lambda>c. name c \<noteq> None \<and> (\<exists>col. recolor (color c) = Inr col)) cs"
    and "full_length (length smpls) cs"
  shows "\<exists>cs'. create_cats wrap recolor smpls cs = Inr cs' \<and> map data cs' = map data cs
           \<and> full_length (length smpls) cs'"
  using assms by (induction cs) (auto simp add: full_length_def)

lemma create_cats_assert:
  assumes "list_all (\<lambda>c. name c \<noteq> None \<and> (\<exists>col. recolor (color c) = Inr col)) cs"
    and "\<not> full_length (length smpls) cs"
  shows "create_cats wrap recolor smpls cs = Inl AssertionError"
  using assms
proof (induction cs)
  case Nil
  then show ?case by (simp add: full_length_def)
next
  case (Cons c cs)
  from Cons.prems(1) obtain nm col where c: "name c = Some nm" "recolor (color c) = Inr col"
    by auto
  show ?case
  proof (cases "length smpls = length (data c)")
    case True
    with Cons.prems have "create_cats wrap recolor smpls cs = Inl AssertionError"
      by (intro Cons.IH) (simp_all add: full_length_def)
    with c True show ?thesis by simp
  next
    case False
    with c show ?thesis by simp
  qed
qed

lemma expand_full: "full_length n cs \<Longrightarrow> map (expand_cat n) cs = cs"
  by (induction cs) (simp_all add: full_length_def expand_cat_def)

text \<open>
  Claim C1, as amended. For categories that have a name and a colour that parses,
  the construction of a dataset returns exactly when the length of the values of every
  category is equal to the sample count, and fails with an assertion error when some
  length differs, be it longer or shorter. The expansion pads a sequence that is no longer
  than the sample count with zeros on the right until its length is the sample count
  (\<open>[5]\<close> against 3 samples becomes \<open>[5,0,0]\<close>), and changes nothing in a dataset that the
  construction has returned.
\<close>

theorem create_and_expand:
  "(list_all (\<lambda>c. name c \<noteq> None \<and> (\<exists>col. recolor (color c) = Inr col)) cs \<longrightarrow>
      (full_length (length smpls) cs \<longrightarrow>
         (\<exists>ds. Dataset_create wrap recolor d cs smpls = Inr ds
            \<and> map data (cats ds) = map data cs \<and> samples ds = smpls
            \<and> expand_dataset ds = ds))
      \<and> (\<not> full_length (length smpls) cs \<longrightarrow>
           Dataset_create wrap recolor d cs smpls = Inl AssertionError))
   \<and> (length (data c) \<le> n \<longrightarrow>
        data (expand_cat n c) = data c @ replicate (n - length (data c)) (Val 0)
        \<and> length (data (expand_cat n c)) = n)
   \<and> data (expand_cat 3 \<lparr>name = Some ''X'', color = ''#ff0000'', data = [Val 5], data_pct = None\<rparr>)
       = [Val 5, Val 0, Val 0]"
proof -
  have ok: "\<exists>ds. Dataset_create wrap recolor d cs smpls = Inr ds
            \<and> map data (cats ds) = map data cs \<and> samples ds = smpls
            \<and> expand_dataset ds = ds"
    if "list_all (\<lambda>c. name c \<noteq> None \<and> (\<exists>col. recolor (color c) = Inr col)) cs"
      and "full_length (length smpls) cs"
  proof -
    from create_cats_ok [OF that, of wrap] obtain cs' where
      cs': "create_cats wrap recolor smpls cs = Inr cs'" "map data cs' = map data cs"
        "full_length (length smpls) cs'"
      by blast
    then show ?thesis
      by (simp add: Dataset_create_def expand_dataset_def expand_full)
  qed
  have bad: "Dataset_create wrap recolor d cs smpls = Inl AssertionError"
    if "list_all (\<lambda>c. name c \<noteq> None \<and> (\<exists>col. recolor (color c) = Inr col)) cs"
      and "\<not> full_length (length smpls) cs"
    using create_cats_assert [OF that, of wrap] by (simp add: Dataset_create_def)
  have pad: "data (expand_cat n c) = data c @ replicate (n - length (data c)) (Val 0)
        \<and> length (data (expand_cat n c)) = n"
    if "length (data c) \<le> n"
    using that by (simp add: expand_cat_def)
  have ex: "data (expand_cat 3 \<lparr>name = Some ''X'', color = ''#ff0000'', data = [Val 5], data_pct = None\<rparr>)
       = [Val 5, Val 0, Val 0]"
    by (simp add: expand_cat_def numeral_3_eq_3)
  from ok bad pad ex show ?thesis by blast
qed

theorem create_and_expand_witness:
  "list_all (\<lambda>c. name c \<noteq> None \<and> (\<exists>col. Inr (color c) = (Inr col :: error + string))) example_cats
   \<and> full_length (length [''A'', ''B'', ''C'']) example_cats
   \<and> (\<exists>ds. Dataset_create (\<lambda>s. s) Inr (base_dataset.truncate example_dataset) example_cats
              [''A'', ''B'', ''C''] = Inr ds
         \<and> map data (cats ds) = map data example_cats \<and> samples ds = [''A'', ''B'', ''C'']
         \<and> expand_dataset ds = ds)
   \<and> \<not> full_length (length [''A'', ''B'']) example_cats
   \<and> Dataset_create (\<lambda>s. s) Inr (base_dataset.truncate example_dataset) example_cats
        [''A'', ''B''] = Inl AssertionError
   \<and> length (data \<lparr>name = Some ''X'', color = ''#ff0000'', data = [Val 5, Val 7], data_pct = None\<rparr>)
        \<le> 4
   \<and> data (expand_cat 4
        \<lparr>name = Some ''X'', color = ''#ff0000'', data = [Val 5, Val 7], data_pct = None\<rparr>)
       = [Val 5, Val 7, Val 0, Val 0]"
proof -
  have h: "list_all (\<lambda>c. name c \<noteq> None \<and> (\<exists>col. Inr (color c) = (Inr col :: error + string)))
      example_cats"
    by (simp add: example_cats_def)
  have f3: "full_length (length [''A'', ''B'', ''C'']) example_cats"
    and f2: "\<not> full_length (length [''A'', ''B'']) example_cats"
    by (simp_all add: full_length_def example_cats_def)
  have l: "length (data \<lparr>name = Some ''X'', color = ''#ff0000'', data = [Val 5, Val 7],
      data_pct = None\<rparr>) \<le> 4"
    by simp
  show ?thesis
    using h f3 f2 l
      create_and_expand [of Inr example_cats "[''A'', ''B'', ''C'']" "\<lambda>s. s"
        "base_dataset.truncate example_dataset"
        "\<lparr>name = Some ''X'', color = ''#ff0000'', data = [Val 5, Val 7], data_pct = None\<rparr>" 4]
      create_and_expand [of Inr example_cats "[''A'', ''B'']" "\<lambda>s. s"
        "base_dataset.truncate example_dataset"
        "\<lparr>name = Some ''X'', color = ''#ff0000'', data = [Val 5, Val 7], data_pct = None\<rparr>" 4]
    by (simp add: numeral_2_eq_2)
qed

text \<open>
  Claim C1 as it is written fails: a category with the values \<open>[5]\<close> against 3 samples,
  shorter than the sample count, is not accepted: the construction fails with the
  assertion error, and so does the constructor of the plot.
\<close>

theorem create_shorter_counterexample:
  "Dataset_create (\<lambda>s. s) Inr
     \<lparr>pct_range_xaxis_min = None, pct_range_xaxis_max = None, minallowed = None, maxallowed = None\<rparr>
     [\<lparr>name = Some ''X'', color = ''#ff0000'', data = [Val 5], data_pct = None\<rparr>]
     [''A'', ''B'', ''C'']
   = Inl AssertionError
   \<and> BarPlot_init (\<lambda>s. s) Inr (\<lambda>key cs. cs)
     \<lparr>base_datasets = [\<lparr>pct_range_xaxis_min = None, pct_range_xaxis_max = None,
                        minallowed = None, maxallowed = None\<rparr>],
      add_pct_tab = False, add_log_tab = False\<rparr>
     Map.empty
     [[\<lparr>name = Some ''X'', color = ''#ff0000'', data = [Val 5], data_pct = None\<rparr>]]
     [[''A'', ''B'', ''C'']] 3
   = Inl AssertionError"
  by (simp add: Dataset_create_def BarPlot_init_def)

end
